theory Spec2Isabelle
  imports Main
begin

section \<open>Python values used by food.py\<close>

text \<open>
  A Python \<open>dict\<close> keeps its keys in insertion order, and \<open>fulfill_order\<close> depends on
  that order, so every dict of the program is an association list read from the front.
  \<open>dict_get\<close> is \<open>d.get(k)\<close> (and \<open>k in d\<close> is \<open>dict_contains\<close>); \<open>dict_set\<close> is
  \<open>d[k] = v\<close>: an existing key keeps its position and gets the new value, a new key is
  appended at the end. \<open>len(d)\<close> is \<open>length d\<close>.
\<close>

type_synonym ('k, 'v) dict = "('k \<times> 'v) list"

fun dict_get :: "('k, 'v) dict \<Rightarrow> 'k \<Rightarrow> 'v option" where
  "dict_get [] k = None"
| "dict_get ((k', v) # d) k = (if k' = k then Some v else dict_get d k)"

definition dict_contains :: "('k, 'v) dict \<Rightarrow> 'k \<Rightarrow> bool" where
  "dict_contains d k = (dict_get d k \<noteq> None)"

fun dict_set :: "'k \<Rightarrow> 'v \<Rightarrow> ('k, 'v) dict \<Rightarrow> ('k, 'v) dict" where
  "dict_set k v [] = [(k, v)]"
| "dict_set k v ((k', v') # d) = (if k' = k then (k, v) # d else (k', v') # dict_set k v d)"

definition dict_keys :: "('k, 'v) dict \<Rightarrow> 'k list" where
  "dict_keys d = map fst d"

text \<open>
  \<open>str(n)\<close> for the integers that the f-strings of the program format: decimal digits,
  most significant first, no leading zero, a minus sign for a negative number.
\<close>

definition digit_char :: "nat \<Rightarrow> char" where
  "digit_char d = char_of (48 + d)"

function str_nat :: "nat \<Rightarrow> string" where
  "str_nat n = (if n < 10 then [digit_char n] else str_nat (n div 10) @ [digit_char (n mod 10)])"
  by pat_completeness auto
termination
  by (relation "measure (\<lambda>n. n)") auto

declare str_nat.simps [simp del]

definition str_int :: "int \<Rightarrow> string" where
  "str_int i = (if i < 0 then CHR ''-'' # str_nat (nat (- i)) else str_nat (nat i))"

definition quoted :: "string \<Rightarrow> string" where
  "quoted s = [CHR 0x27] @ s @ [CHR 0x27]"

text \<open>A \<open>datetime.date\<close> is year, month, day; the program only stores and prints dates.\<close>

type_synonym date = "nat \<times> nat \<times> nat"

section \<open>The entity classes\<close>

record Product =
  product_id :: string
  name :: string
  category :: string
  expiry_date :: "date option"

record Location =
  location_id :: string
  name :: string
  location_type :: string

text \<open>
  An \<open>InventoryItem\<close> holds references to a \<open>Product\<close> and a \<open>Location\<close>. No method of
  the program assigns to a field of either class, so the referenced object is the value.
\<close>

record InventoryItem =
  product :: Product
  location :: Location
  quantity :: int

record Order =
  order_id :: string
  customer :: string
  order_date :: date
  items :: "(string, int) dict"
  status :: string

text \<open>
  \<open>Delivery.order\<close> is a reference to an \<open>Order\<close> object owned by the registry's
  \<open>orders\<close> dict; the model keeps the key under which that object is registered.
\<close>

record Delivery =
  delivery_id :: string
  order :: string
  delivery_date :: "date option"
  tracking_id :: "string option"
  status :: string

text \<open>
  \<open>Order.__init__(order_id, customer)\<close> as \<open>place_order\<close> calls it: no date and no items
  are passed, so the date is \<open>datetime.date.today()\<close> (the parameter \<open>today\<close>) and the
  items are a new empty dict.
\<close>

definition Order_init :: "string \<Rightarrow> string \<Rightarrow> date \<Rightarrow> Order" where
  "Order_init oid cust today =
     \<lparr>order_id = oid, customer = cust, order_date = today, items = [], status = ''Pending''\<rparr>"

definition add_item :: "string \<Rightarrow> int \<Rightarrow> Order \<Rightarrow> Order" where
  "add_item pid qty ord =
     (case dict_get (items ord) pid of
        Some q0 \<Rightarrow> ord\<lparr>items := dict_set pid (q0 + qty) (items ord)\<rparr>
      | None \<Rightarrow> ord\<lparr>items := dict_set pid qty (items ord)\<rparr>)"

definition Order_update_status :: "string \<Rightarrow> Order \<Rightarrow> Order" where
  "Order_update_status new_status ord = ord\<lparr>Order.status := new_status\<rparr>"

definition Delivery_init :: "string \<Rightarrow> string \<Rightarrow> date option \<Rightarrow> Delivery" where
  "Delivery_init did oid ddate =
     \<lparr>delivery_id = did, order = oid, delivery_date = ddate, tracking_id = None,
      status = ''Scheduled''\<rparr>"

definition Delivery_update_status :: "string \<Rightarrow> Delivery \<Rightarrow> Delivery" where
  "Delivery_update_status new_status d = d\<lparr>Delivery.status := new_status\<rparr>"

definition InventoryItem_str :: "InventoryItem \<Rightarrow> string" where
  "InventoryItem_str it =
     ''Product: '' @ Product.name (product it) @ '', Location: '' @ Location.name (location it)
       @ '', Quantity: '' @ str_int (quantity it)"

section \<open>The registry\<close>

record FoodSupplyChain =
  products :: "(string, Product) dict"
  locations :: "(string, Location) dict"
  inventory :: "(string \<times> string, InventoryItem) dict"
  orders :: "(string, Order) dict"
  deliveries :: "(string, Delivery) dict"

text \<open>
  Every method prints status lines; a method of the model returns the lines it printed, in
  order, next to its return value and the registry after the call. The one exception a
  method can raise is the \<open>KeyError\<close> of \<open>self.products[product_id]\<close> in
  \<open>fulfill_order\<close>.
\<close>

type_synonym printed = "string list"

datatype py_error = KeyError

definition FoodSupplyChain_init :: FoodSupplyChain where
  "FoodSupplyChain_init =
     \<lparr>products = [], locations = [], inventory = [], orders = [], deliveries = []\<rparr>"

definition add_product :: "Product \<Rightarrow> FoodSupplyChain \<Rightarrow> printed \<times> FoodSupplyChain" where
  "add_product p s =
     (if \<not> dict_contains (products s) (product_id p)
      then ([''Product '' @ quoted (Product.name p) @ '' added.''],
            s\<lparr>products := dict_set (product_id p) p (products s)\<rparr>)
      else ([''Product with ID '' @ quoted (product_id p) @ '' already exists.''], s))"

definition add_location :: "Location \<Rightarrow> FoodSupplyChain \<Rightarrow> printed \<times> FoodSupplyChain" where
  "add_location l s =
     (if \<not> dict_contains (locations s) (location_id l)
      then ([''Location '' @ quoted (Location.name l) @ '' added.''],
            s\<lparr>locations := dict_set (location_id l) l (locations s)\<rparr>)
      else ([''Location with ID '' @ quoted (location_id l) @ '' already exists.''], s))"

definition units_added :: "int \<Rightarrow> InventoryItem \<Rightarrow> string" where
  "units_added qty it =
     str_int qty @ '' units of '' @ quoted (Product.name (product it)) @ '' added to ''
       @ quoted (Location.name (location it)) @ ''.''"

definition add_inventory ::
  "string \<Rightarrow> string \<Rightarrow> int \<Rightarrow> FoodSupplyChain \<Rightarrow> printed \<times> FoodSupplyChain" where
  "add_inventory pid lid qty s =
     (case (dict_get (products s) pid, dict_get (locations s) lid) of
        (Some p, Some l) \<Rightarrow>
          (case dict_get (inventory s) (pid, lid) of
             None \<Rightarrow>
               (let it = \<lparr>product = p, location = l, quantity = qty\<rparr>
                in ([units_added qty it], s\<lparr>inventory := dict_set (pid, lid) it (inventory s)\<rparr>))
           | Some it0 \<Rightarrow>
               (let it = it0\<lparr>quantity := quantity it0 + qty\<rparr>
                in ([units_added qty it], s\<lparr>inventory := dict_set (pid, lid) it (inventory s)\<rparr>)))
      | _ \<Rightarrow> ([''Invalid product ID or location ID.''], s))"

definition get_inventory :: "string \<Rightarrow> string \<Rightarrow> FoodSupplyChain \<Rightarrow> InventoryItem option" where
  "get_inventory pid lid s = dict_get (inventory s) (pid, lid)"

text \<open>
  The loop of \<open>place_order\<close> over \<open>order_items.items()\<close>: a registered product is added
  to the order, an unregistered one is skipped with a warning.
\<close>

fun place_order_loop ::
  "(string, Product) dict \<Rightarrow> (string, int) dict \<Rightarrow> Order \<Rightarrow> printed \<times> Order" where
  "place_order_loop prods [] new_order = ([], new_order)"
| "place_order_loop prods ((pid, qty) # rest) new_order =
     (if dict_contains prods pid
      then place_order_loop prods rest (add_item pid qty new_order)
      else (case place_order_loop prods rest new_order of
              (out, new_order') \<Rightarrow>
                ((''Warning: Product with ID '' @ quoted pid @ '' not found.'') # out, new_order')))"

definition place_order ::
  "string \<Rightarrow> (string, int) dict \<Rightarrow> date \<Rightarrow> FoodSupplyChain \<Rightarrow> printed \<times> Order \<times> FoodSupplyChain"
  where
  "place_order cust order_items today s =
     (let oid = ''ORD-'' @ str_nat (length (orders s) + 1)
      in case place_order_loop (products s) order_items (Order_init oid cust today) of
           (out, new_order) \<Rightarrow>
             (out @ [''Order '' @ quoted oid @ '' placed by '' @ quoted cust @ ''.''],
              new_order,
              s\<lparr>orders := dict_set oid new_order (orders s)\<rparr>))"

text \<open>
  The inner loop of \<open>fulfill_order\<close>: the position, in iteration order, of the first
  inventory item of the product whose quantity is at least the quantity needed.
  \<open>found_inventory\<close> is a reference to that item; the position stands for it.
\<close>

fun find_inventory ::
  "string \<Rightarrow> int \<Rightarrow> (string \<times> string, InventoryItem) dict \<Rightarrow> nat option" where
  "find_inventory pid qty [] = None"
| "find_inventory pid qty (((inv_prod_id, lid), it) # rest) =
     (if inv_prod_id = pid \<and> quantity it \<ge> qty then Some 0
      else map_option Suc (find_inventory pid qty rest))"

text \<open>\<open>found_inventory.quantity -= quantity_needed\<close> on the item at position \<open>i\<close>.\<close>

definition ship ::
  "nat \<Rightarrow> int \<Rightarrow> (string \<times> string, InventoryItem) dict \<Rightarrow> (string \<times> string, InventoryItem) dict"
  where
  "ship i qty ivs =
     ivs[i := (fst (ivs ! i), (snd (ivs ! i))\<lparr>quantity := quantity (snd (ivs ! i)) - qty\<rparr>)]"

text \<open>
  The outer loop of \<open>fulfill_order\<close> over \<open>order.items.items()\<close>. Both messages read
  \<open>self.products[product_id].name\<close>, which raises \<open>KeyError\<close> for an unregistered
  product; on the shipping path the quantity has been decremented before that.
  The result is \<open>Inr True\<close> when the loop ran to its end, \<open>Inr False\<close> for the early
  \<open>return False\<close>.
\<close>

fun fulfill_items ::
  "(string, Product) dict \<Rightarrow> string \<Rightarrow> (string, int) dict
     \<Rightarrow> (string \<times> string, InventoryItem) dict
     \<Rightarrow> printed \<times> (py_error + bool) \<times> (string \<times> string, InventoryItem) dict" where
  "fulfill_items prods oid [] ivs = ([], Inr True, ivs)"
| "fulfill_items prods oid ((pid, qty) # rest) ivs =
     (case find_inventory pid qty ivs of
        None \<Rightarrow>
          (case dict_get prods pid of
             None \<Rightarrow> ([], Inl KeyError, ivs)
           | Some p \<Rightarrow>
               ([''Insufficient stock of '' @ quoted (Product.name p) @ '' to fulfill order ''
                   @ quoted oid @ ''.''], Inr False, ivs))
      | Some i \<Rightarrow>
          (let ivs' = ship i qty ivs
           in case dict_get prods pid of
                None \<Rightarrow> ([], Inl KeyError, ivs')
              | Some p \<Rightarrow>
                  (case fulfill_items prods oid rest ivs' of
                     (out, r, ivs'') \<Rightarrow>
                       ((''Shipped '' @ str_int qty @ '' units of '' @ quoted (Product.name p)
                           @ '' from '' @ quoted (Location.name (location (snd (ivs' ! i))))
                           @ '' for order '' @ quoted oid @ ''.'') # out, r, ivs''))))"

definition fulfill_order ::
  "string \<Rightarrow> FoodSupplyChain \<Rightarrow> printed \<times> (py_error + bool) \<times> FoodSupplyChain" where
  "fulfill_order oid s =
     (case dict_get (orders s) oid of
        None \<Rightarrow> ([''Order with ID '' @ quoted oid @ '' not found.''], Inr False, s)
      | Some ord \<Rightarrow>
          (case fulfill_items (products s) oid (items ord) (inventory s) of
             (out, r, ivs') \<Rightarrow>
               (if r = Inr True
                then (out @ [''Order '' @ quoted oid @ '' has been fulfilled.''], Inr True,
                      s\<lparr>inventory := ivs',
                        orders := dict_set oid (Order_update_status ''Fulfilled'' ord) (orders s)\<rparr>)
                else (out, r, s\<lparr>inventory := ivs'\<rparr>))))"

definition schedule_delivery ::
  "string \<Rightarrow> date option \<Rightarrow> FoodSupplyChain \<Rightarrow> printed \<times> Delivery option \<times> FoodSupplyChain"
  where
  "schedule_delivery oid ddate s =
     (case dict_get (orders s) oid of
        None \<Rightarrow> ([''Order with ID '' @ quoted oid @ '' not found.''], None, s)
      | Some ord \<Rightarrow>
          (if Order.status ord \<noteq> ''Fulfilled''
           then ([''Order '' @ quoted oid
                    @ '' is not yet fulfilled and cannot be scheduled for delivery.''], None, s)
           else (let did = ''DEL-'' @ str_nat (length (deliveries s) + 1);
                     new_delivery = Delivery_init did oid ddate
                 in ([''Delivery '' @ quoted did @ '' scheduled for order '' @ quoted oid @ ''.''],
                     Some new_delivery,
                     s\<lparr>deliveries := dict_set did new_delivery (deliveries s)\<rparr>))))"

definition update_delivery_status ::
  "string \<Rightarrow> string \<Rightarrow> FoodSupplyChain \<Rightarrow> printed \<times> FoodSupplyChain" where
  "update_delivery_status did new_status s =
     (case dict_get (deliveries s) did of
        Some d \<Rightarrow>
          ([''Delivery '' @ quoted did @ '' status updated to '' @ quoted new_status @ ''.''],
           s\<lparr>deliveries := dict_set did (Delivery_update_status new_status d) (deliveries s)\<rparr>)
      | None \<Rightarrow> ([''Delivery with ID '' @ quoted did @ '' not found.''], s))"

definition track_delivery :: "string \<Rightarrow> FoodSupplyChain \<Rightarrow> printed \<times> Delivery option" where
  "track_delivery did s =
     (case dict_get (deliveries s) did of
        Some d \<Rightarrow> ([], Some d)
      | None \<Rightarrow> ([''Delivery with ID '' @ quoted did @ '' not found.''], None))"

definition generate_inventory_report :: "FoodSupplyChain \<Rightarrow> printed" where
  "generate_inventory_report s =
     [[CHR 0x0A] @ ''--- Inventory Report ---'']
       @ (if inventory s = [] then [''No inventory available.'']
          else map (\<lambda>(k, it). InventoryItem_str it) (inventory s))
       @ [''-----------------------'' @ [CHR 0x0A]]"

section \<open>Sequences of registry calls\<close>

text \<open>
  A caller drives the registry through its methods. \<open>step\<close> is the registry after one
  call (after a \<open>KeyError\<close> too: the mutations made before the exception stay), and
  \<open>run\<close> is the registry after a sequence of calls. The three methods that only read
  (\<open>get_inventory\<close>, \<open>track_delivery\<close>, \<open>generate_inventory_report\<close>) leave the registry
  as it is and are not listed. A caller that assigns to a field of a returned object, or calls
  \<open>Order.add_item\<close> on a returned order, is not making a registry call and is not
  covered by \<open>run\<close>.
\<close>

datatype operation =
    AddProduct Product
  | AddLocation Location
  | AddInventory string string int
  | PlaceOrder string "(string, int) dict" date
  | FulfillOrder string
  | ScheduleDelivery string "date option"
  | UpdateDeliveryStatus string string

fun step :: "operation \<Rightarrow> FoodSupplyChain \<Rightarrow> FoodSupplyChain" where
  "step (AddProduct p) s = snd (add_product p s)"
| "step (AddLocation l) s = snd (add_location l s)"
| "step (AddInventory pid lid qty) s = snd (add_inventory pid lid qty s)"
| "step (PlaceOrder cust order_items today) s = snd (snd (place_order cust order_items today s))"
| "step (FulfillOrder oid) s = snd (snd (fulfill_order oid s))"
| "step (ScheduleDelivery oid ddate) s = snd (snd (schedule_delivery oid ddate s))"
| "step (UpdateDeliveryStatus did new_status) s = snd (update_delivery_status did new_status s)"

fun run :: "operation list \<Rightarrow> FoodSupplyChain \<Rightarrow> FoodSupplyChain" where
  "run [] s = s"
| "run (c # cs) s = run cs (step c s)"

text \<open>The orders returned by a sequence of \<open>place_order\<close> calls, and the registry after.\<close>

fun place_orders ::
  "(string \<times> (string, int) dict \<times> date) list \<Rightarrow> FoodSupplyChain
     \<Rightarrow> Order list \<times> FoodSupplyChain" where
  "place_orders [] s = ([], s)"
| "place_orders ((cust, order_items, today) # cs) s =
     (case place_order cust order_items today s of
        (out, new_order, s') \<Rightarrow>
          (case place_orders cs s' of (ords, s'') \<Rightarrow> (new_order # ords, s'')))"

section \<open>Invariants of the registry\<close>

text \<open>
  Three properties that hold in the empty registry and that every method keeps:
  the line items of every registered order are keyed by registered products;
  the keys of an order's item dict are distinct (it is a dict);
  the order ids are \<open>ORD-1\<close>, \<open>ORD-2\<close>, ... and the delivery ids \<open>DEL-1\<close>, \<open>DEL-2\<close>, ...
  in insertion order, so that \<open>len\<close> of either dict is the number of ids handed out.
\<close>

definition orders_registered :: "FoodSupplyChain \<Rightarrow> bool" where
  "orders_registered s =
     (\<forall>(oid, ord) \<in> set (orders s). \<forall>pid \<in> set (dict_keys (items ord)).
        dict_contains (products s) pid)"

definition items_distinct :: "FoodSupplyChain \<Rightarrow> bool" where
  "items_distinct s = (\<forall>(oid, ord) \<in> set (orders s). distinct (dict_keys (items ord)))"

definition ids_sequential :: "FoodSupplyChain \<Rightarrow> bool" where
  "ids_sequential s =
     (dict_keys (orders s) = map (\<lambda>n. ''ORD-'' @ str_nat n) [1..<Suc (length (orders s))]
      \<and> dict_keys (deliveries s)
          = map (\<lambda>n. ''DEL-'' @ str_nat n) [1..<Suc (length (deliveries s))])"

definition registry_inv :: "FoodSupplyChain \<Rightarrow> bool" where
  "registry_inv s = (orders_registered s \<and> items_distinct s \<and> ids_sequential s)"

definition stock_nonneg :: "FoodSupplyChain \<Rightarrow> bool" where
  "stock_nonneg s = (\<forall>(key, it) \<in> set (inventory s). 0 \<le> quantity it)"

section \<open>The registry of the example driver\<close>

text \<open>
  The products, locations and stock that the \<open>__main__\<close> block of food.py registers,
  used as concrete inputs.
\<close>

definition apple :: Product where
  "apple = \<lparr>product_id = ''PROD-001'', name = ''Apple'', category = ''Fruits'',
            expiry_date = Some (2025, 5, 15)\<rparr>"

definition banana :: Product where
  "banana = \<lparr>product_id = ''PROD-002'', name = ''Banana'', category = ''Fruits'',
             expiry_date = Some (2025, 4, 25)\<rparr>"

definition milk :: Product where
  "milk = \<lparr>product_id = ''PROD-003'', name = ''Milk'', category = ''Dairy'',
           expiry_date = Some (2025, 4, 20)\<rparr>"

definition farm_a :: Location where
  "farm_a = \<lparr>location_id = ''LOC-001'', name = ''Farm A'', location_type = ''Farm''\<rparr>"

definition warehouse_x :: Location where
  "warehouse_x =
     \<lparr>location_id = ''LOC-002'', name = ''Warehouse X'', location_type = ''Warehouse''\<rparr>"

definition retailer_y :: Location where
  "retailer_y =
     \<lparr>location_id = ''LOC-003'', name = ''Retailer Y'', location_type = ''Retailer''\<rparr>"

definition demo_inventory :: "(string \<times> string, InventoryItem) dict" where
  "demo_inventory =
     [((''PROD-001'', ''LOC-002''), \<lparr>product = apple, location = warehouse_x, quantity = 100\<rparr>),
      ((''PROD-002'', ''LOC-002''), \<lparr>product = banana, location = warehouse_x, quantity = 150\<rparr>),
      ((''PROD-003'', ''LOC-002''), \<lparr>product = milk, location = warehouse_x, quantity = 50\<rparr>),
      ((''PROD-001'', ''LOC-003''), \<lparr>product = apple, location = retailer_y, quantity = 20\<rparr>),
      ((''PROD-003'', ''LOC-003''), \<lparr>product = milk, location = retailer_y, quantity = 10\<rparr>)]"

definition demo_chain :: FoodSupplyChain where
  "demo_chain =
     \<lparr>products = [(''PROD-001'', apple), (''PROD-002'', banana), (''PROD-003'', milk)],
      locations = [(''LOC-001'', farm_a), (''LOC-002'', warehouse_x), (''LOC-003'', retailer_y)],
      inventory = demo_inventory,
      orders = [],
      deliveries = []\<rparr>"

definition demo_setup :: "operation list" where
  "demo_setup =
     [AddProduct apple, AddProduct banana, AddProduct milk,
      AddLocation farm_a, AddLocation warehouse_x, AddLocation retailer_y,
      AddInventory ''PROD-001'' ''LOC-002'' 100, AddInventory ''PROD-002'' ''LOC-002'' 150,
      AddInventory ''PROD-003'' ''LOC-002'' 50, AddInventory ''PROD-001'' ''LOC-003'' 20,
      AddInventory ''PROD-003'' ''LOC-003'' 10]"

text \<open>An order of the demo registry, as \<open>place_order\<close> registers it, with a given status.\<close>

definition demo_order :: "(string, int) dict \<Rightarrow> string \<Rightarrow> Order" where
  "demo_order its st =
     \<lparr>order_id = ''ORD-1'', customer = ''Alice'', order_date = (2025, 4, 17), items = its,
      status = st\<rparr>"

definition demo_with_order :: "(string, int) dict \<Rightarrow> string \<Rightarrow> FoodSupplyChain" where
  "demo_with_order its st = demo_chain\<lparr>orders := [(''ORD-1'', demo_order its st)]\<rparr>"

text \<open>
  The demo registry with an order for 100 apples, after 80 more apples were stocked at
  Retailer Y: both apple items hold exactly 100.
\<close>

definition demo_restocked :: FoodSupplyChain where
  "demo_restocked =
     snd (add_inventory ''PROD-001'' ''LOC-003'' 80
            (demo_with_order [(''PROD-001'', 100)] ''Pending''))"

section \<open>Facts about dicts\<close>

lemma dict_get_set: "dict_get (dict_set k v d) k' = (if k' = k then Some v else dict_get d k')"
  by (induction d) auto

lemma dict_get_None_iff: "dict_get d k = None \<longleftrightarrow> k \<notin> fst ` set d"
  by (induction d) (auto split: if_splits)

lemma dict_get_Some_mem: "dict_get d k = Some v \<Longrightarrow> (k, v) \<in> set d"
  by (induction d) (auto split: if_splits)

lemma dict_set_new: "dict_get d k = None \<Longrightarrow> dict_set k v d = d @ [(k, v)]"
  by (induction d) (auto split: if_splits)

lemma set_dict_set: "set (dict_set k v d) \<subseteq> insert (k, v) (set d)"
  by (induction d) (auto split: if_splits)

lemma map_fst_dict_set:
  "map fst (dict_set k v d) = (if k \<in> fst ` set d then map fst d else map fst d @ [k])"
  by (induction d) force+

lemma keys_dict_set: "fst ` set (dict_set k v d) = insert k (fst ` set d)"
proof -
  have "set (map fst (dict_set k v d)) = insert k (set (map fst d))"
    unfolding map_fst_dict_set by auto
  then show ?thesis by simp
qed

lemma distinct_dict_set: "distinct (map fst d) \<Longrightarrow> distinct (map fst (dict_set k v d))"
  by (induction d) (auto simp: keys_dict_set)

section \<open>Facts about the inventory scan\<close>

lemma find_inventory_Some:
  "find_inventory pid qty ivs = Some i \<Longrightarrow>
     i < length ivs \<and> fst (fst (ivs ! i)) = pid \<and> qty \<le> quantity (snd (ivs ! i))"
proof (induction ivs arbitrary: i)
  case Nil
  then show ?case by simp
next
  case (Cons e rest)
  obtain p l it where e: "e = ((p, l), it)" by (metis prod.collapse)
  show ?case
  proof (cases "p = pid \<and> qty \<le> quantity it")
    case True
    with Cons.prems e show ?thesis by auto
  next
    case False
    with Cons.prems e obtain j where "find_inventory pid qty rest = Some j" "i = Suc j"
      by auto
    with Cons.IH show ?thesis by auto
  qed
qed

lemma find_inventory_first:
  "find_inventory pid qty ivs = Some i \<Longrightarrow> k < i \<Longrightarrow>
     \<not> (fst (fst (ivs ! k)) = pid \<and> qty \<le> quantity (snd (ivs ! k)))"
proof (induction ivs arbitrary: i k)
  case Nil
  then show ?case by simp
next
  case (Cons e rest)
  obtain p l it where e: "e = ((p, l), it)" by (metis prod.collapse)
  show ?case
  proof (cases "p = pid \<and> qty \<le> quantity it")
    case True
    with Cons.prems e show ?thesis by auto
  next
    case False
    with Cons.prems e obtain j where j: "find_inventory pid qty rest = Some j" "i = Suc j"
      by auto
    show ?thesis
    proof (cases k)
      case 0
      with False e show ?thesis by auto
    next
      case (Suc k')
      with Cons.prems j have "k' < j" by simp
      from Cons.IH[OF j(1) this] Suc show ?thesis by simp
    qed
  qed
qed

lemma find_inventory_None:
  "find_inventory pid qty ivs = None \<longleftrightarrow>
     (\<forall>e \<in> set ivs. \<not> (fst (fst e) = pid \<and> qty \<le> quantity (snd e)))"
  by (induction ivs) (auto split: if_splits)

lemma length_ship: "length (ship i qty ivs) = length ivs"
  by (simp add: ship_def)

lemma keys_ship: "map fst (ship i qty ivs) = map fst ivs"
proof (cases "i < length ivs")
  case True
  then have "(map fst ivs)[i := fst (ivs ! i)] = map fst ivs"
    by (simp add: list_update_same_conv)
  then show ?thesis by (simp add: ship_def map_update)
next
  case False
  then have "ship i qty ivs = ivs" by (simp add: ship_def list_update_beyond)
  then show ?thesis by simp
qed

lemma nth_ship:
  "j < length ivs \<Longrightarrow> ship i qty ivs ! j =
     (if j = i then (fst (ivs ! i), (snd (ivs ! i))\<lparr>quantity := quantity (snd (ivs ! i)) - qty\<rparr>)
      else ivs ! j)"
  by (simp add: ship_def)

section \<open>The example registry\<close>

lemma demo_setup_builds_demo_chain: "run demo_setup FoodSupplyChain_init = demo_chain"
  by code_simp

lemma demo_products:
  "products demo_chain = [(''PROD-001'', apple), (''PROD-002'', banana), (''PROD-003'', milk)]"
  by (simp add: demo_chain_def)

lemma demo_locations:
  "locations demo_chain
     = [(''LOC-001'', farm_a), (''LOC-002'', warehouse_x), (''LOC-003'', retailer_y)]"
  by (simp add: demo_chain_def)

lemma demo_inventory_of: "inventory demo_chain = demo_inventory"
  by (simp add: demo_chain_def)

section \<open>Registering products and locations\<close>

text \<open>
  C7. \<open>add_product\<close> with a product whose id is already registered prints the
  "already exists" line and returns the registry it was given: no entry is replaced or
  added. \<open>add_location\<close> does the same for a registered location id. Neither method has
  a raising path.
\<close>

theorem duplicate_id_is_reported_and_ignored:
  "(dict_contains (products s) (product_id p) \<longrightarrow>
      add_product p s
        = ([''Product with ID '' @ quoted (product_id p) @ '' already exists.''], s))
   \<and> (dict_contains (locations s) (location_id l) \<longrightarrow>
      add_location l s
        = ([''Location with ID '' @ quoted (location_id l) @ '' already exists.''], s))"
  by (simp add: add_product_def add_location_def)

theorem duplicate_id_is_reported_and_ignored_witness:
  "dict_contains (products demo_chain) (product_id apple)
   \<and> add_product apple demo_chain = ([''Product with ID 'PROD-001' already exists.''], demo_chain)
   \<and> dict_contains (locations demo_chain) (location_id farm_a)
   \<and> add_location farm_a demo_chain
        = ([''Location with ID 'LOC-001' already exists.''], demo_chain)"
proof -
  have p: "dict_contains (products demo_chain) (product_id apple)"
    by (simp add: demo_products dict_contains_def apple_def)
  have l: "dict_contains (locations demo_chain) (location_id farm_a)"
    by (simp add: demo_locations dict_contains_def farm_a_def)
  show ?thesis
    using p l duplicate_id_is_reported_and_ignored [of demo_chain apple farm_a]
    by (simp add: quoted_def apple_def farm_a_def)
qed

section \<open>Stocking inventory\<close>

text \<open>
  C5. For a registered product \<open>p\<close> and a registered location \<open>l\<close> with no inventory
  item yet, \<open>add_inventory(p, l, q1)\<close> creates the item with quantity \<open>q1\<close>, and
  \<open>add_inventory(p, l, q2)\<close> after it increments that item, which then holds
  \<open>q1 + q2\<close>.
\<close>

theorem add_inventory_twice_sums:
  assumes "dict_get (products s) p = Some pr"
    and "dict_get (locations s) l = Some lo"
    and "get_inventory p l s = None"
  shows "get_inventory p l (snd (add_inventory p l q1 s))
           = Some \<lparr>product = pr, location = lo, quantity = q1\<rparr>
         \<and> get_inventory p l (snd (add_inventory p l q2 (snd (add_inventory p l q1 s))))
           = Some \<lparr>product = pr, location = lo, quantity = q1 + q2\<rparr>"
proof -
  let ?s1 = "snd (add_inventory p l q1 s)"
  have s1: "?s1 = s\<lparr>inventory :=
      dict_set (p, l) \<lparr>product = pr, location = lo, quantity = q1\<rparr> (inventory s)\<rparr>"
    using assms by (simp add: add_inventory_def get_inventory_def Let_def)
  have g1: "get_inventory p l ?s1 = Some \<lparr>product = pr, location = lo, quantity = q1\<rparr>"
    by (simp add: s1 get_inventory_def dict_get_set)
  have "products ?s1 = products s" "locations ?s1 = locations s"
    by (simp_all add: s1)
  with assms g1 have "get_inventory p l (snd (add_inventory p l q2 ?s1))
      = Some \<lparr>product = pr, location = lo, quantity = q1 + q2\<rparr>"
    by (simp add: add_inventory_def get_inventory_def dict_get_set Let_def)
  with g1 show ?thesis by simp
qed

theorem add_inventory_twice_sums_witness:
  "dict_get (products demo_chain) ''PROD-002'' = Some banana
   \<and> dict_get (locations demo_chain) ''LOC-003'' = Some retailer_y
   \<and> get_inventory ''PROD-002'' ''LOC-003'' demo_chain = None
   \<and> get_inventory ''PROD-002'' ''LOC-003''
        (snd (add_inventory ''PROD-002'' ''LOC-003'' 12
           (snd (add_inventory ''PROD-002'' ''LOC-003'' 30 demo_chain))))
       = Some \<lparr>product = banana, location = retailer_y, quantity = 42\<rparr>"
proof -
  have p: "dict_get (products demo_chain) ''PROD-002'' = Some banana"
    by (simp add: demo_products)
  have l: "dict_get (locations demo_chain) ''LOC-003'' = Some retailer_y"
    by (simp add: demo_locations)
  have i: "get_inventory ''PROD-002'' ''LOC-003'' demo_chain = None"
    by (simp add: get_inventory_def demo_inventory_of demo_inventory_def)
  show ?thesis
    using p l i add_inventory_twice_sums [OF p l i, of 30 12] by simp
qed

section \<open>Fulfilment never drives a quantity below zero\<close>

lemma ship_keeps_nonneg:
  assumes "find_inventory pid qty ivs = Some i"
    and "\<forall>(key, it) \<in> set ivs. 0 \<le> quantity it"
  shows "\<forall>(key, it) \<in> set (ship i qty ivs). 0 \<le> quantity it"
proof -
  from find_inventory_Some[OF assms(1)] have q: "qty \<le> quantity (snd (ivs ! i))" by simp
  have "set (ship i qty ivs)
      \<subseteq> insert (fst (ivs ! i), (snd (ivs ! i))\<lparr>quantity := quantity (snd (ivs ! i)) - qty\<rparr>)
          (set ivs)"
    unfolding ship_def by (rule set_update_subset_insert)
  with assms(2) q show ?thesis by auto
qed

lemma fulfill_items_keeps_nonneg:
  "\<forall>(key, it) \<in> set ivs. 0 \<le> quantity it \<Longrightarrow>
   \<forall>(key, it) \<in> set (snd (snd (fulfill_items prods oid its ivs))). 0 \<le> quantity it"
proof (induction its arbitrary: ivs)
  case Nil
  then show ?case by simp
next
  case (Cons line rest)
  obtain pid qty where line: "line = (pid, qty)" by (cases line)
  show ?case
  proof (cases "find_inventory pid qty ivs")
    case None
    with Cons.prems line show ?thesis by (simp split: option.splits)
  next
    case (Some i)
    have nn: "\<forall>(key, it) \<in> set (ship i qty ivs). 0 \<le> quantity it"
      using Some Cons.prems by (rule ship_keeps_nonneg)
    show ?thesis
    proof (cases "dict_get prods pid")
      case None
      with Some line nn show ?thesis by simp
    next
      case (Some p)
      from Cons.IH[OF nn] \<open>find_inventory pid qty ivs = Some i\<close> Some line
      show ?thesis by (simp add: Let_def split: prod.splits)
    qed
  qed
qed

text \<open>
  C4. If every inventory item has a non-negative quantity before \<open>fulfill_order\<close>, every
  item has a non-negative quantity after it, whatever the call returns (success, failure, or
  the \<open>KeyError\<close>): an item is only decremented by a quantity that it holds.
\<close>

theorem fulfill_order_keeps_stock_nonneg:
  "stock_nonneg s \<Longrightarrow> stock_nonneg (snd (snd (fulfill_order oid s)))"
proof -
  assume nn: "stock_nonneg s"
  show ?thesis
  proof (cases "dict_get (orders s) oid")
    case None
    with nn show ?thesis by (simp add: fulfill_order_def)
  next
    case (Some ord)
    obtain out r ivs' where f: "fulfill_items (products s) oid (items ord) (inventory s) = (out, r, ivs')"
      by (cases "fulfill_items (products s) oid (items ord) (inventory s)")
    from nn have "\<forall>(key, it) \<in> set (inventory s). 0 \<le> quantity it"
      by (simp add: stock_nonneg_def)
    from fulfill_items_keeps_nonneg[OF this, of "products s" oid "items ord"] f
    have "\<forall>(key, it) \<in> set ivs'. 0 \<le> quantity it" by simp
    with Some f show ?thesis by (simp add: fulfill_order_def stock_nonneg_def)
  qed
qed


theorem fulfill_order_keeps_stock_nonneg_witness:
  "stock_nonneg (demo_with_order [(''PROD-001'', 5)] ''Pending'')
   \<and> stock_nonneg
        (snd (snd (fulfill_order ''ORD-1'' (demo_with_order [(''PROD-001'', 5)] ''Pending''))))"
proof -
  have nn: "stock_nonneg (demo_with_order [(''PROD-001'', 5)] ''Pending'')"
    by (simp add: stock_nonneg_def demo_with_order_def demo_inventory_of demo_inventory_def)
  show ?thesis
    using nn fulfill_order_keeps_stock_nonneg [OF nn, of "''ORD-1''"] by simp
qed

section \<open>Decimal numerals are distinct\<close>

lemma digit_char_inj: "a < 10 \<Longrightarrow> b < 10 \<Longrightarrow> digit_char a = digit_char b \<Longrightarrow> a = b"
proof -
  assume a: "a < 10" and b: "b < 10" and e: "digit_char a = digit_char b"
  from e have "(of_char (digit_char a) :: nat) = of_char (digit_char b)" by simp
  then have "(48 + a) mod 256 = (48 + b) mod 256"
    by (simp add: digit_char_def)
  with a b show "a = b" by simp
qed

lemma str_nat_nonempty: "str_nat n \<noteq> []"
  by (subst str_nat.simps) simp

lemma str_nat_inj: "str_nat m = str_nat n \<Longrightarrow> m = n"
proof (induction m arbitrary: n rule: str_nat.induct)
  case (1 m)
  show ?case
  proof (cases "m < 10")
    case m: True
    show ?thesis
    proof (cases "n < 10")
      case True
      with m "1.prems" have "digit_char m = digit_char n"
        by (subst (asm) str_nat.simps, subst (asm) (2) str_nat.simps) simp
      with m True show ?thesis by (rule digit_char_inj)
    next
      case False
      with m "1.prems" have "[digit_char m] = str_nat (n div 10) @ [digit_char (n mod 10)]"
        by (subst (asm) str_nat.simps, subst (asm) (2) str_nat.simps) simp
      then have "str_nat (n div 10) = []" by simp
      with str_nat_nonempty show ?thesis by blast
    qed
  next
    case m: False
    show ?thesis
    proof (cases "n < 10")
      case True
      with m "1.prems" have "str_nat (m div 10) @ [digit_char (m mod 10)] = [digit_char n]"
        by (subst (asm) str_nat.simps, subst (asm) (2) str_nat.simps) simp
      then have "str_nat (m div 10) = []" by simp
      with str_nat_nonempty show ?thesis by blast
    next
      case False
      with m "1.prems" have "str_nat (m div 10) @ [digit_char (m mod 10)]
          = str_nat (n div 10) @ [digit_char (n mod 10)]"
        by (subst (asm) str_nat.simps, subst (asm) (2) str_nat.simps) simp
      then have e: "str_nat (m div 10) = str_nat (n div 10)"
        and d: "digit_char (m mod 10) = digit_char (n mod 10)" by simp_all
      from "1.IH"[OF m e] have q: "m div 10 = n div 10" .
      from d have r: "m mod 10 = n mod 10" by (intro digit_char_inj) simp_all
      from q r show ?thesis by (metis div_mult_mod_eq)
    qed
  qed
qed

lemma sequential_fresh:
  "pre @ str_nat (Suc k) \<notin> set (map (\<lambda>n. pre @ str_nat n) [1..<Suc k])"
proof
  assume "pre @ str_nat (Suc k) \<in> set (map (\<lambda>n. pre @ str_nat n) [1..<Suc k])"
  then obtain n where n: "n < Suc k" and "pre @ str_nat (Suc k) = pre @ str_nat n"
    unfolding set_map set_upt by force
  then have "str_nat (Suc k) = str_nat n" by simp
  then have "Suc k = n" by (rule str_nat_inj)
  with n show False by simp
qed

section \<open>More facts about dicts\<close>

lemma length_dict_set:
  "length (dict_set k v d) = (if k \<in> fst ` set d then length d else Suc (length d))"
proof -
  have "length (map fst (dict_set k v d)) = (if k \<in> fst ` set d then length d else Suc (length d))"
    unfolding map_fst_dict_set by simp
  then show ?thesis by simp
qed

lemma dict_contains_iff: "dict_contains d k \<longleftrightarrow> k \<in> fst ` set d"
  by (simp add: dict_contains_def dict_get_None_iff)

lemma dict_contains_set: "dict_contains d k' \<Longrightarrow> dict_contains (dict_set k v d) k'"
  by (simp add: dict_contains_def dict_get_set)

lemma dict_set_existing_keys:
  "dict_get d k = Some v0 \<Longrightarrow> dict_keys (dict_set k v d) = dict_keys d \<and> length (dict_set k v d) = length d"
proof -
  assume "dict_get d k = Some v0"
  then have "k \<in> fst ` set d" using dict_get_None_iff[of d k] by auto
  then show ?thesis by (simp add: dict_keys_def map_fst_dict_set length_dict_set)
qed

lemma Ball_dict_set:
  "\<forall>(k', v') \<in> set d. P v' \<Longrightarrow> P v \<Longrightarrow> \<forall>(k', v') \<in> set (dict_set k v d). P v'"
  using set_dict_set[of k v d] by auto

section \<open>Facts about placing an order\<close>

lemma add_item_keys:
  "set (dict_keys (items (add_item pid qty ord))) = insert pid (set (dict_keys (items ord)))"
  by (auto simp: add_item_def dict_keys_def keys_dict_set split: option.splits)

lemma add_item_distinct:
  "distinct (dict_keys (items ord)) \<Longrightarrow> distinct (dict_keys (items (add_item pid qty ord)))"
  by (auto simp: add_item_def dict_keys_def distinct_dict_set split: option.splits)

lemma add_item_fields:
  "order_id (add_item pid qty ord) = order_id ord \<and> Order.status (add_item pid qty ord) = Order.status ord
   \<and> customer (add_item pid qty ord) = customer ord \<and> order_date (add_item pid qty ord) = order_date ord"
  by (simp add: add_item_def split: option.splits)

lemma place_order_loop_snd:
  "snd (place_order_loop prods ((pid, qty) # rest) ord) =
     (if dict_contains prods pid then snd (place_order_loop prods rest (add_item pid qty ord))
      else snd (place_order_loop prods rest ord))"
  by (simp split: prod.splits)

lemma place_order_loop_fst:
  "fst (place_order_loop prods ((pid, qty) # rest) ord) =
     (if dict_contains prods pid then fst (place_order_loop prods rest (add_item pid qty ord))
      else (''Warning: Product with ID '' @ quoted pid @ '' not found.'')
             # fst (place_order_loop prods rest ord))"
  by (simp split: prod.splits)

lemma place_order_loop_keys:
  "set (dict_keys (items (snd (place_order_loop prods its ord))))
     = set (dict_keys (items ord)) \<union> {pid \<in> fst ` set its. dict_contains prods pid}"
proof (induction its arbitrary: ord)
  case Nil
  then show ?case by simp
next
  case (Cons line rest)
  obtain pid qty where line: "line = (pid, qty)" by (cases line)
  show ?case
  proof (cases "dict_contains prods pid")
    case True
    then show ?thesis using Cons.IH[of "add_item pid qty ord"] line
      by (auto simp: add_item_keys place_order_loop_snd simp del: place_order_loop.simps)
  next
    case False
    then show ?thesis using Cons.IH[of ord] line
      by (auto simp: place_order_loop_snd simp del: place_order_loop.simps)
  qed
qed

lemma place_order_loop_distinct:
  "distinct (dict_keys (items ord)) \<Longrightarrow>
   distinct (dict_keys (items (snd (place_order_loop prods its ord))))"
proof (induction its arbitrary: ord)
  case Nil
  then show ?case by simp
next
  case (Cons line rest)
  obtain pid qty where line: "line = (pid, qty)" by (cases line)
  show ?case
  proof (cases "dict_contains prods pid")
    case True
    then show ?thesis using Cons.IH[of "add_item pid qty ord"] Cons.prems line
      by (simp add: add_item_distinct place_order_loop_snd del: place_order_loop.simps)
  next
    case False
    then show ?thesis using Cons.IH[of ord] Cons.prems line
      by (simp add: place_order_loop_snd del: place_order_loop.simps)
  qed
qed

lemma place_order_loop_fields:
  "order_id (snd (place_order_loop prods its ord)) = order_id ord
   \<and> Order.status (snd (place_order_loop prods its ord)) = Order.status ord
   \<and> customer (snd (place_order_loop prods its ord)) = customer ord"
proof (induction its arbitrary: ord)
  case Nil
  then show ?case by simp
next
  case (Cons line rest)
  obtain pid qty where line: "line = (pid, qty)" by (cases line)
  show ?case
  proof (cases "dict_contains prods pid")
    case True
    then show ?thesis using Cons.IH[of "add_item pid qty ord"] line
      by (simp add: add_item_fields place_order_loop_snd del: place_order_loop.simps)
  next
    case False
    then show ?thesis using Cons.IH[of ord] line
      by (simp add: place_order_loop_snd del: place_order_loop.simps)
  qed
qed

lemma place_order_loop_warns:
  "pid \<in> fst ` set its \<Longrightarrow> \<not> dict_contains prods pid \<Longrightarrow>
   (''Warning: Product with ID '' @ quoted pid @ '' not found.'')
     \<in> set (fst (place_order_loop prods its ord))"
proof (induction its arbitrary: ord)
  case Nil
  then show ?case by simp
next
  case (Cons line rest)
  obtain pid' qty where line: "line = (pid', qty)" by (cases line)
  show ?case
  proof (cases "pid' = pid")
    case True
    with Cons.prems line show ?thesis
      by (simp add: place_order_loop_fst del: place_order_loop.simps)
  next
    case False
    with Cons.prems line have "pid \<in> fst ` set rest" by auto
    from Cons.IH[OF this Cons.prems(2)] line show ?thesis
      by (simp add: place_order_loop_fst del: place_order_loop.simps)
  qed
qed

text \<open>\<open>place_order\<close> with its \<open>let\<close> and \<open>case\<close> unfolded.\<close>

lemma place_order_result:
  "place_order cust its today s =
     (fst (place_order_loop (products s) its
             (Order_init (''ORD-'' @ str_nat (length (orders s) + 1)) cust today))
        @ [''Order '' @ quoted (''ORD-'' @ str_nat (length (orders s) + 1)) @ '' placed by ''
             @ quoted cust @ ''.''],
      snd (place_order_loop (products s) its
             (Order_init (''ORD-'' @ str_nat (length (orders s) + 1)) cust today)),
      s\<lparr>orders := dict_set (''ORD-'' @ str_nat (length (orders s) + 1))
           (snd (place_order_loop (products s) its
              (Order_init (''ORD-'' @ str_nat (length (orders s) + 1)) cust today)))
           (orders s)\<rparr>)"
  by (simp add: place_order_def Let_def split: prod.splits)

section \<open>What each method leaves alone\<close>

lemma add_product_fields:
  "orders (snd (add_product p s)) = orders s \<and> deliveries (snd (add_product p s)) = deliveries s
   \<and> inventory (snd (add_product p s)) = inventory s
   \<and> (\<forall>pid. dict_contains (products s) pid \<longrightarrow> dict_contains (products (snd (add_product p s))) pid)"
  by (simp add: add_product_def dict_contains_set)

lemma add_location_fields:
  "orders (snd (add_location l s)) = orders s \<and> deliveries (snd (add_location l s)) = deliveries s
   \<and> products (snd (add_location l s)) = products s
   \<and> inventory (snd (add_location l s)) = inventory s"
  by (simp add: add_location_def)

lemma add_inventory_fields:
  "orders (snd (add_inventory pid lid qty s)) = orders s
   \<and> deliveries (snd (add_inventory pid lid qty s)) = deliveries s
   \<and> products (snd (add_inventory pid lid qty s)) = products s"
  by (simp add: add_inventory_def Let_def split: option.splits)

lemma place_order_fields:
  "products (snd (snd (place_order cust its today s))) = products s
   \<and> deliveries (snd (snd (place_order cust its today s))) = deliveries s
   \<and> inventory (snd (snd (place_order cust its today s))) = inventory s
   \<and> locations (snd (snd (place_order cust its today s))) = locations s"
  by (simp add: place_order_result)

lemma place_order_appends:
  assumes "dict_keys (orders s) = map (\<lambda>n. ''ORD-'' @ str_nat n) [1..<Suc (length (orders s))]"
  shows "orders (snd (snd (place_order cust its today s)))
           = orders s @ [(''ORD-'' @ str_nat (Suc (length (orders s))),
                          fst (snd (place_order cust its today s)))]"
proof -
  have "''ORD-'' @ str_nat (Suc (length (orders s))) \<notin> set (dict_keys (orders s))"
    unfolding assms by (rule sequential_fresh)
  then have "dict_get (orders s) (''ORD-'' @ str_nat (Suc (length (orders s)))) = None"
    by (simp add: dict_get_None_iff dict_keys_def)
  then show ?thesis
    by (simp add: place_order_result dict_set_new)
qed

lemma fulfill_order_fields:
  "products (snd (snd (fulfill_order oid s))) = products s
   \<and> deliveries (snd (snd (fulfill_order oid s))) = deliveries s
   \<and> locations (snd (snd (fulfill_order oid s))) = locations s"
  by (simp add: fulfill_order_def split: option.splits prod.splits)

lemma fulfill_order_orders:
  "orders (snd (snd (fulfill_order oid s))) = orders s
   \<or> (\<exists>ord. dict_get (orders s) oid = Some ord
        \<and> orders (snd (snd (fulfill_order oid s)))
            = dict_set oid (Order_update_status ''Fulfilled'' ord) (orders s))"
  by (simp add: fulfill_order_def split: option.splits prod.splits)

lemma schedule_delivery_fields:
  "products (snd (snd (schedule_delivery oid ddate s))) = products s
   \<and> orders (snd (snd (schedule_delivery oid ddate s))) = orders s
   \<and> inventory (snd (snd (schedule_delivery oid ddate s))) = inventory s"
  by (simp add: schedule_delivery_def Let_def split: option.splits)

lemma schedule_delivery_appends:
  assumes "dict_keys (deliveries s) = map (\<lambda>n. ''DEL-'' @ str_nat n) [1..<Suc (length (deliveries s))]"
    and "dict_get (orders s) oid = Some ord" and "Order.status ord = ''Fulfilled''"
  shows "schedule_delivery oid ddate s =
     ([''Delivery '' @ quoted (''DEL-'' @ str_nat (Suc (length (deliveries s))))
         @ '' scheduled for order '' @ quoted oid @ ''.''],
      Some (Delivery_init (''DEL-'' @ str_nat (Suc (length (deliveries s)))) oid ddate),
      s\<lparr>deliveries := deliveries s
           @ [(''DEL-'' @ str_nat (Suc (length (deliveries s))),
               Delivery_init (''DEL-'' @ str_nat (Suc (length (deliveries s)))) oid ddate)]\<rparr>)"
proof -
  have "''DEL-'' @ str_nat (Suc (length (deliveries s))) \<notin> set (dict_keys (deliveries s))"
    unfolding assms(1) by (rule sequential_fresh)
  then have "dict_get (deliveries s) (''DEL-'' @ str_nat (Suc (length (deliveries s)))) = None"
    by (simp add: dict_get_None_iff dict_keys_def)
  with assms(2,3) show ?thesis
    by (simp add: schedule_delivery_def Let_def dict_set_new)
qed

lemma update_delivery_status_fields:
  "products (snd (update_delivery_status did st s)) = products s
   \<and> orders (snd (update_delivery_status did st s)) = orders s
   \<and> inventory (snd (update_delivery_status did st s)) = inventory s"
  by (simp add: update_delivery_status_def split: option.splits)

lemma sequential_snoc:
  "ks = map f [1..<Suc (length d)] \<Longrightarrow> ks @ [f (Suc (length d))] = map f [1..<Suc (length (d @ [x]))]"
  by simp

section \<open>The ids stay sequential\<close>

lemma ids_sequential_init: "ids_sequential FoodSupplyChain_init"
  by (simp add: ids_sequential_def FoodSupplyChain_init_def dict_keys_def)

lemma ids_sequential_place_order:
  assumes "ids_sequential s"
  shows "ids_sequential (snd (snd (place_order cust its today s)))"
proof -
  from assms have o: "dict_keys (orders s) = map (\<lambda>n. ''ORD-'' @ str_nat n) [1..<Suc (length (orders s))]"
    by (simp add: ids_sequential_def)
  from place_order_appends[OF o, of cust its today] o assms place_order_fields[of cust its today s]
  show ?thesis
    by (simp add: ids_sequential_def dict_keys_def)
qed

lemma ids_sequential_fulfill_order:
  assumes "ids_sequential s"
  shows "ids_sequential (snd (snd (fulfill_order oid s)))"
proof -
  from fulfill_order_orders[of oid s]
  have "dict_keys (orders (snd (snd (fulfill_order oid s)))) = dict_keys (orders s)
        \<and> length (orders (snd (snd (fulfill_order oid s)))) = length (orders s)"
    by (auto dest: dict_set_existing_keys)
  with assms fulfill_order_fields[of oid s] show ?thesis
    by (simp add: ids_sequential_def)
qed

lemma ids_sequential_schedule_delivery:
  assumes "ids_sequential s"
  shows "ids_sequential (snd (snd (schedule_delivery oid ddate s)))"
proof (cases "dict_get (orders s) oid")
  case None
  with assms show ?thesis by (simp add: schedule_delivery_def)
next
  case (Some ord)
  show ?thesis
  proof (cases "Order.status ord = ''Fulfilled''")
    case False
    with Some assms show ?thesis by (simp add: schedule_delivery_def)
  next
    case True
    from assms have d: "dict_keys (deliveries s)
        = map (\<lambda>n. ''DEL-'' @ str_nat n) [1..<Suc (length (deliveries s))]"
      by (simp add: ids_sequential_def)
    from schedule_delivery_appends[OF d Some True, of ddate] d assms
    show ?thesis by (simp add: ids_sequential_def dict_keys_def)
  qed
qed

lemma ids_sequential_update_delivery_status:
  assumes "ids_sequential s"
  shows "ids_sequential (snd (update_delivery_status did st s))"
proof (cases "dict_get (deliveries s) did")
  case None
  with assms show ?thesis by (simp add: update_delivery_status_def)
next
  case (Some d)
  from dict_set_existing_keys[OF Some, of "Delivery_update_status st d"] Some assms
  show ?thesis by (simp add: update_delivery_status_def ids_sequential_def)
qed

lemma ids_sequential_step: "ids_sequential s \<Longrightarrow> ids_sequential (step c s)"
proof (cases c)
  case (AddProduct p)
  assume "ids_sequential s"
  with AddProduct add_product_fields[of p s] show ?thesis by (simp add: ids_sequential_def)
next
  case (AddLocation l)
  assume "ids_sequential s"
  with AddLocation add_location_fields[of l s] show ?thesis by (simp add: ids_sequential_def)
next
  case (AddInventory pid lid qty)
  assume "ids_sequential s"
  with AddInventory add_inventory_fields[of pid lid qty s] show ?thesis
    by (simp add: ids_sequential_def)
next
  case (PlaceOrder cust its today)
  assume "ids_sequential s"
  with PlaceOrder show ?thesis by (simp add: ids_sequential_place_order)
next
  case (FulfillOrder oid)
  assume "ids_sequential s"
  with FulfillOrder show ?thesis by (simp add: ids_sequential_fulfill_order)
next
  case (ScheduleDelivery oid ddate)
  assume "ids_sequential s"
  with ScheduleDelivery show ?thesis by (simp add: ids_sequential_schedule_delivery)
next
  case (UpdateDeliveryStatus did st)
  assume "ids_sequential s"
  with UpdateDeliveryStatus show ?thesis by (simp add: ids_sequential_update_delivery_status)
qed

section \<open>The orders stay well-formed\<close>

lemma orders_registered_init: "orders_registered FoodSupplyChain_init"
  by (simp add: orders_registered_def FoodSupplyChain_init_def)

lemma items_distinct_init: "items_distinct FoodSupplyChain_init"
  by (simp add: items_distinct_def FoodSupplyChain_init_def)

lemma orders_registered_place_order:
  assumes "orders_registered s"
  shows "orders_registered (snd (snd (place_order cust its today s)))"
proof -
  let ?oid = "''ORD-'' @ str_nat (length (orders s) + 1)"
  let ?new = "snd (place_order_loop (products s) its (Order_init ?oid cust today))"
  let ?P = "\<lambda>ord. \<forall>pid \<in> set (dict_keys (items ord)). dict_contains (products s) pid"
  have new: "?P ?new"
    unfolding place_order_loop_keys by (simp add: Order_init_def dict_keys_def)
  from assms have old: "\<forall>(k, v) \<in> set (orders s). ?P v"
    by (simp add: orders_registered_def)
  from Ball_dict_set[of "orders s" ?P ?new ?oid, OF old new]
  show ?thesis
    by (simp add: place_order_result orders_registered_def)
qed

lemma items_distinct_place_order:
  assumes "items_distinct s"
  shows "items_distinct (snd (snd (place_order cust its today s)))"
proof -
  let ?oid = "''ORD-'' @ str_nat (length (orders s) + 1)"
  let ?new = "snd (place_order_loop (products s) its (Order_init ?oid cust today))"
  let ?P = "\<lambda>ord. distinct (dict_keys (items ord))"
  have "distinct (dict_keys (items (Order_init ?oid cust today)))"
    by (simp add: Order_init_def dict_keys_def)
  then have new: "?P ?new" by (rule place_order_loop_distinct)
  from assms have old: "\<forall>(k, v) \<in> set (orders s). ?P v"
    by (simp add: items_distinct_def)
  from Ball_dict_set[of "orders s" ?P ?new ?oid, OF old new]
  show ?thesis
    by (simp add: place_order_result items_distinct_def)
qed

lemma fulfill_order_keeps_orders:
  assumes "\<forall>(k, v) \<in> set (orders s). P (items v)"
  shows "\<forall>(k, v) \<in> set (orders (snd (snd (fulfill_order oid s)))). P (items v)"
proof -
  from fulfill_order_orders[of oid s] show ?thesis
  proof
    assume "orders (snd (snd (fulfill_order oid s))) = orders s"
    with assms show ?thesis by simp
  next
    assume "\<exists>ord. dict_get (orders s) oid = Some ord
        \<and> orders (snd (snd (fulfill_order oid s)))
            = dict_set oid (Order_update_status ''Fulfilled'' ord) (orders s)"
    then obtain ord where g: "dict_get (orders s) oid = Some ord"
      and e: "orders (snd (snd (fulfill_order oid s)))
            = dict_set oid (Order_update_status ''Fulfilled'' ord) (orders s)" by blast
    from dict_get_Some_mem[OF g] assms have "P (items ord)" by auto
    then have "P (items (Order_update_status ''Fulfilled'' ord))"
      by (simp add: Order_update_status_def)
    from Ball_dict_set[of "orders s" "\<lambda>v. P (items v)", OF assms this, of oid] e
    show ?thesis by simp
  qed
qed

lemma orders_registered_fulfill_order:
  assumes "orders_registered s"
  shows "orders_registered (snd (snd (fulfill_order oid s)))"
proof -
  from assms have "\<forall>(k, v) \<in> set (orders s).
      (\<lambda>its. \<forall>pid \<in> set (dict_keys its). dict_contains (products s) pid) (items v)"
    by (simp add: orders_registered_def)
  from fulfill_order_keeps_orders[OF this, of oid] fulfill_order_fields[of oid s]
  show ?thesis by (simp add: orders_registered_def)
qed

lemma items_distinct_fulfill_order:
  assumes "items_distinct s"
  shows "items_distinct (snd (snd (fulfill_order oid s)))"
proof -
  from assms have "\<forall>(k, v) \<in> set (orders s). (\<lambda>its. distinct (dict_keys its)) (items v)"
    by (simp add: items_distinct_def)
  from fulfill_order_keeps_orders[OF this, of oid]
  show ?thesis by (simp add: items_distinct_def)
qed

lemma orders_registered_step: "orders_registered s \<Longrightarrow> orders_registered (step c s)"
proof (cases c)
  case (AddProduct p)
  assume "orders_registered s"
  with AddProduct add_product_fields[of p s] show ?thesis
    by (fastforce simp: orders_registered_def)
next
  case (AddLocation l)
  assume "orders_registered s"
  with AddLocation add_location_fields[of l s] show ?thesis
    by (simp add: orders_registered_def)
next
  case (AddInventory pid lid qty)
  assume "orders_registered s"
  with AddInventory add_inventory_fields[of pid lid qty s] show ?thesis
    by (simp add: orders_registered_def)
next
  case (PlaceOrder cust its today)
  assume "orders_registered s"
  with PlaceOrder show ?thesis by (simp add: orders_registered_place_order)
next
  case (FulfillOrder oid)
  assume "orders_registered s"
  with FulfillOrder show ?thesis by (simp add: orders_registered_fulfill_order)
next
  case (ScheduleDelivery oid ddate)
  assume "orders_registered s"
  with ScheduleDelivery schedule_delivery_fields[of oid ddate s] show ?thesis
    by (simp add: orders_registered_def)
next
  case (UpdateDeliveryStatus did st)
  assume "orders_registered s"
  with UpdateDeliveryStatus update_delivery_status_fields[of did st s] show ?thesis
    by (simp add: orders_registered_def)
qed

lemma items_distinct_step: "items_distinct s \<Longrightarrow> items_distinct (step c s)"
proof (cases c)
  case (AddProduct p)
  assume "items_distinct s"
  with AddProduct add_product_fields[of p s] show ?thesis
    by (simp add: items_distinct_def)
next
  case (AddLocation l)
  assume "items_distinct s"
  with AddLocation add_location_fields[of l s] show ?thesis
    by (simp add: items_distinct_def)
next
  case (AddInventory pid lid qty)
  assume "items_distinct s"
  with AddInventory add_inventory_fields[of pid lid qty s] show ?thesis
    by (simp add: items_distinct_def)
next
  case (PlaceOrder cust its today)
  assume "items_distinct s"
  with PlaceOrder show ?thesis by (simp add: items_distinct_place_order)
next
  case (FulfillOrder oid)
  assume "items_distinct s"
  with FulfillOrder show ?thesis by (simp add: items_distinct_fulfill_order)
next
  case (ScheduleDelivery oid ddate)
  assume "items_distinct s"
  with ScheduleDelivery schedule_delivery_fields[of oid ddate s] show ?thesis
    by (simp add: items_distinct_def)
next
  case (UpdateDeliveryStatus did st)
  assume "items_distinct s"
  with UpdateDeliveryStatus update_delivery_status_fields[of did st s] show ?thesis
    by (simp add: items_distinct_def)
qed

lemma registry_inv_init: "registry_inv FoodSupplyChain_init"
  by (simp add: registry_inv_def orders_registered_init items_distinct_init ids_sequential_init)

lemma registry_inv_step: "registry_inv s \<Longrightarrow> registry_inv (step c s)"
  by (simp add: registry_inv_def orders_registered_step items_distinct_step ids_sequential_step)

lemma registry_inv_run: "registry_inv s \<Longrightarrow> registry_inv (run cs s)"
  by (induction cs arbitrary: s) (simp_all add: registry_inv_step)

lemma registry_inv_reachable: "registry_inv (run cs FoodSupplyChain_init)"
  by (rule registry_inv_run) (rule registry_inv_init)

section \<open>Line items are for registered products\<close>

lemma fulfill_items_no_KeyError:
  "\<forall>pid \<in> set (dict_keys its). dict_contains prods pid \<Longrightarrow>
   fst (snd (fulfill_items prods oid its ivs)) \<noteq> Inl KeyError"
proof (induction its arbitrary: ivs)
  case Nil
  then show ?case by simp
next
  case (Cons line rest)
  obtain pid qty where line: "line = (pid, qty)" by (cases line)
  from Cons.prems line obtain p where p: "dict_get prods pid = Some p"
    by (auto simp: dict_keys_def dict_contains_def)
  from Cons.prems have rest: "\<forall>pid \<in> set (dict_keys rest). dict_contains prods pid"
    by (simp add: dict_keys_def)
  show ?case
  proof (cases "find_inventory pid qty ivs")
    case None
    with p line show ?thesis by simp
  next
    case (Some i)
    from Cons.IH[OF rest, of "ship i qty ivs"] Some p line show ?thesis
      by (auto simp: Let_def split: prod.splits)
  qed
qed

lemma fulfill_order_no_KeyError:
  assumes "orders_registered s"
  shows "fst (snd (fulfill_order oid s)) \<noteq> Inl KeyError"
proof (cases "dict_get (orders s) oid")
  case None
  then show ?thesis by (simp add: fulfill_order_def)
next
  case (Some ord)
  from dict_get_Some_mem[OF Some] assms
  have "\<forall>pid \<in> set (dict_keys (items ord)). dict_contains (products s) pid"
    by (auto simp: orders_registered_def)
  from fulfill_items_no_KeyError[OF this, of oid "inventory s"] Some
  show ?thesis by (auto simp: fulfill_order_def split: prod.splits)
qed

lemma place_order_items_registered:
  "\<forall>pid \<in> set (dict_keys (items (fst (snd (place_order cust its today s))))).
     dict_contains (products s) pid"
proof -
  have "set (dict_keys (items (fst (snd (place_order cust its today s)))))
      = {pid \<in> fst ` set its. dict_contains (products s) pid}"
    unfolding place_order_result fst_conv snd_conv place_order_loop_keys
    by (simp add: Order_init_def dict_keys_def)
  then show ?thesis by simp
qed

lemma orders_registered_run: "orders_registered (run cs FoodSupplyChain_init)"
  using registry_inv_reachable[of cs] by (simp add: registry_inv_def)

lemma demo_with_order_fields:
  "products (demo_with_order its st) = products demo_chain"
  "locations (demo_with_order its st) = locations demo_chain"
  "inventory (demo_with_order its st) = demo_inventory"
  "orders (demo_with_order its st) = [(''ORD-1'', demo_order its st)]"
  "deliveries (demo_with_order its st) = []"
  by (simp_all add: demo_with_order_def demo_chain_def)

lemma demo_order_fields:
  "items (demo_order its st) = its" "Order.status (demo_order its st) = st"
  "order_id (demo_order its st) = ''ORD-1''"
  by (simp_all add: demo_order_def)

text \<open>
  C10. The order that \<open>place_order\<close> builds has line items only for registered products.
  "Every line item of every registered order is for a registered product" is kept by every
  method that changes the registry, so it holds in every registry reached from the empty one.
  Where it holds, \<open>fulfill_order\<close> never raises the \<open>KeyError\<close> of
  \<open>self.products[product_id]\<close>.
\<close>
theorem order_items_stay_registered:
  "(\<forall>pid \<in> set (dict_keys (items (fst (snd (place_order cust its today s))))).
      dict_contains (products s) pid)
   \<and> (orders_registered s \<longrightarrow> orders_registered (step c s))
   \<and> orders_registered (run cs FoodSupplyChain_init)
   \<and> (orders_registered s \<longrightarrow> fst (snd (fulfill_order oid s)) \<noteq> Inl KeyError)
   \<and> fst (snd (fulfill_order oid (run cs FoodSupplyChain_init))) \<noteq> Inl KeyError"
  using place_order_items_registered[of cust its today s] orders_registered_step[of s c]
    orders_registered_run[of cs] fulfill_order_no_KeyError[of s oid]
    fulfill_order_no_KeyError[OF orders_registered_run, of oid cs]
  by blast


theorem order_items_stay_registered_witness:
  "orders_registered (demo_with_order [(''PROD-001'', 5), (''PROD-003'', 2)] ''Pending'')
   \<and> orders_registered
        (step (FulfillOrder ''ORD-1'')
           (demo_with_order [(''PROD-001'', 5), (''PROD-003'', 2)] ''Pending''))
   \<and> fst (snd (fulfill_order ''ORD-1''
             (demo_with_order [(''PROD-001'', 5), (''PROD-003'', 2)] ''Pending'')))
       \<noteq> Inl KeyError
   \<and> orders_registered (run demo_setup FoodSupplyChain_init)"
proof -
  have reg: "orders_registered (demo_with_order [(''PROD-001'', 5), (''PROD-003'', 2)] ''Pending'')"
    by (simp add: orders_registered_def demo_with_order_fields demo_order_fields demo_products
        dict_keys_def dict_contains_def)
  show ?thesis
    using reg
      order_items_stay_registered
        [of "''Alice''" "[]" "(2025, 4, 17)"
           "demo_with_order [(''PROD-001'', 5), (''PROD-003'', 2)] ''Pending''"
           "FulfillOrder ''ORD-1''" demo_setup "''ORD-1''"]
    by blast
qed

section \<open>Order ids\<close>

lemma place_order_returns_id:
  "order_id (fst (snd (place_order cust its today s)))
     = ''ORD-'' @ str_nat (Suc (length (orders s)))"
  by (simp add: place_order_result place_order_loop_fields Order_init_def)

lemma place_orders_ids:
  "dict_keys (orders s) = map (\<lambda>n. ''ORD-'' @ str_nat n) [1..<Suc (length (orders s))] \<Longrightarrow>
   k < length cs \<Longrightarrow>
   order_id (fst (place_orders cs s) ! k) = ''ORD-'' @ str_nat (Suc (length (orders s) + k))"
proof (induction cs arbitrary: s k)
  case Nil
  then show ?case by simp
next
  case (Cons call rest)
  obtain cust its today where call: "call = (cust, its, today)" by (cases call)
  let ?s' = "snd (snd (place_order cust its today s))"
  have app: "orders ?s' = orders s @ [(''ORD-'' @ str_nat (Suc (length (orders s))),
                          fst (snd (place_order cust its today s)))]"
    using Cons.prems(1) by (rule place_order_appends)
  have seq': "dict_keys (orders ?s') = map (\<lambda>n. ''ORD-'' @ str_nat n) [1..<Suc (length (orders ?s'))]"
    using Cons.prems(1) by (simp add: app dict_keys_def)
  have unfold: "fst (place_orders (call # rest) s)
      = fst (snd (place_order cust its today s)) # fst (place_orders rest ?s')"
    by (simp add: call split: prod.splits)
  show ?case
  proof (cases k)
    case 0
    then show ?thesis by (simp add: unfold place_order_returns_id)
  next
    case (Suc k')
    with Cons.prems(2) have "k' < length rest" by simp
    from Cons.IH[OF seq' this] Suc show ?thesis
      by (simp add: unfold app)
  qed
qed

lemma demo_orders: "orders demo_chain = []"
  by (simp add: demo_chain_def)

text \<open>
  C6. Starting from a registry with no orders (the fresh registry, or one where only
  products, locations and stock have been registered), the order returned by the
  \<open>k+1\<close>-th of a sequence of \<open>place_order\<close> calls has the id \<open>ORD-\<close> followed by the
  decimal numeral of \<open>k+1\<close>, whatever the customers and the items of the calls are.
\<close>
theorem nth_order_id:
  assumes "orders s = []" and "k < length cs"
  shows "order_id (fst (place_orders cs s) ! k) = ''ORD-'' @ str_nat (Suc k)"
proof -
  from assms(1) have "dict_keys (orders s) = map (\<lambda>n. ''ORD-'' @ str_nat n) [1..<Suc (length (orders s))]"
    by (simp add: dict_keys_def)
  from place_orders_ids[OF this assms(2)] assms(1) show ?thesis by simp
qed

theorem nth_order_id_witness:
  "orders demo_chain = []
   \<and> (2::nat) < length [(''Alice'', [(''PROD-001'', 5), (''PROD-003'', 2)], (2025, 4, 17)),
                         (''Bob'', [], (2025, 4, 18)),
                         (''Carol'', [(''PROD-009'', 1)], (2025, 4, 18))]
   \<and> order_id (fst (place_orders
         [(''Alice'', [(''PROD-001'', 5), (''PROD-003'', 2)], (2025, 4, 17)),
          (''Bob'', [], (2025, 4, 18)),
          (''Carol'', [(''PROD-009'', 1)], (2025, 4, 18))] demo_chain) ! 2) = ''ORD-3''"
proof -
  have len: "(2::nat) < length [(''Alice'', [(''PROD-001'', 5::int), (''PROD-003'', 2)], (2025::nat, 4::nat, 17::nat)),
                         (''Bob'', [], (2025, 4, 18)),
                         (''Carol'', [(''PROD-009'', 1)], (2025, 4, 18))]"
    by simp
  have three: "''ORD-'' @ str_nat (Suc 2) = ''ORD-3''"
    by code_simp
  show ?thesis
    using demo_orders len nth_order_id [OF demo_orders len]
    unfolding three by (simp del: place_orders.simps)
qed

section \<open>Orders with unregistered products\<close>

text \<open>
  C8. When the item mapping passed to \<open>place_order\<close> has a product id that is not
  registered, the call still returns an order, that order is registered under its id, it has
  no line item for the unregistered id, and the "not found" warning for that id is printed.
\<close>
theorem place_order_skips_unregistered:
  assumes "pid \<in> set (dict_keys order_items)"
    and "\<not> dict_contains (products s) pid"
    and "place_order cust order_items today s = (out, new_order, s')"
  shows "dict_get (orders s') (order_id new_order) = Some new_order
         \<and> dict_get (items new_order) pid = None
         \<and> (''Warning: Product with ID '' @ quoted pid @ '' not found.'') \<in> set out"
proof -
  let ?oid = "''ORD-'' @ str_nat (length (orders s) + 1)"
  let ?loop = "place_order_loop (products s) order_items (Order_init ?oid cust today)"
  from assms(3) have out: "out = fst ?loop @ [''Order '' @ quoted ?oid @ '' placed by ''
             @ quoted cust @ ''.'']"
    and new: "new_order = snd ?loop"
    and s': "s' = s\<lparr>orders := dict_set ?oid (snd ?loop) (orders s)\<rparr>"
    unfolding place_order_result by auto
  have "order_id new_order = ?oid"
    by (simp add: new place_order_loop_fields Order_init_def)
  then have reg: "dict_get (orders s') (order_id new_order) = Some new_order"
    by (simp add: s' new dict_get_set)
  have "set (dict_keys (items new_order))
      = {p \<in> fst ` set order_items. dict_contains (products s) p}"
    unfolding new place_order_loop_keys by (simp add: Order_init_def dict_keys_def)
  with assms(2) have "pid \<notin> fst ` set (items new_order)"
    by (auto simp: dict_keys_def)
  then have none: "dict_get (items new_order) pid = None"
    by (simp add: dict_get_None_iff)
  from assms(1) have "pid \<in> fst ` set order_items" by (simp add: dict_keys_def)
  from place_order_loop_warns[OF this assms(2), of "Order_init ?oid cust today"]
  have "(''Warning: Product with ID '' @ quoted pid @ '' not found.'') \<in> set out"
    by (simp add: out)
  with reg none show ?thesis by simp
qed


theorem place_order_skips_unregistered_witness:
  "''PROD-009'' \<in> set (dict_keys [(''PROD-001'', 5::int), (''PROD-009'', 1)])
   \<and> \<not> dict_contains (products demo_chain) ''PROD-009''
   \<and> dict_get (orders (snd (snd (place_order ''Alice'' [(''PROD-001'', 5), (''PROD-009'', 1)]
                                     (2025, 4, 17) demo_chain))))
        (order_id (fst (snd (place_order ''Alice'' [(''PROD-001'', 5), (''PROD-009'', 1)]
                               (2025, 4, 17) demo_chain))))
       = Some (fst (snd (place_order ''Alice'' [(''PROD-001'', 5), (''PROD-009'', 1)]
                          (2025, 4, 17) demo_chain)))
   \<and> dict_get (items (fst (snd (place_order ''Alice'' [(''PROD-001'', 5), (''PROD-009'', 1)]
                                  (2025, 4, 17) demo_chain)))) ''PROD-009'' = None
   \<and> ''Warning: Product with ID 'PROD-009' not found.''
       \<in> set (fst (place_order ''Alice'' [(''PROD-001'', 5), (''PROD-009'', 1)]
                     (2025, 4, 17) demo_chain))"
proof -
  have k: "''PROD-009'' \<in> set (dict_keys [(''PROD-001'', 5::int), (''PROD-009'', 1)])"
    by (simp add: dict_keys_def)
  have u: "\<not> dict_contains (products demo_chain) ''PROD-009''"
    by (simp add: dict_contains_def demo_products)
  have c: "place_order ''Alice'' [(''PROD-001'', 5), (''PROD-009'', 1)] (2025, 4, 17) demo_chain
      = (fst (place_order ''Alice'' [(''PROD-001'', 5), (''PROD-009'', 1)] (2025, 4, 17) demo_chain),
         fst (snd (place_order ''Alice'' [(''PROD-001'', 5), (''PROD-009'', 1)] (2025, 4, 17)
                     demo_chain)),
         snd (snd (place_order ''Alice'' [(''PROD-001'', 5), (''PROD-009'', 1)] (2025, 4, 17)
                     demo_chain)))"
    by simp
  have q: "quoted ''PROD-009'' = [CHR 0x27] @ ''PROD-009'' @ [CHR 0x27]"
    by (simp add: quoted_def)
  show ?thesis
    using k u place_order_skips_unregistered [OF k u c]
    by (simp add: q)
qed

section \<open>Scheduling a delivery\<close>

lemma fulfill_order_success:
  assumes "dict_get (orders s) oid = Some ord"
    and "fulfill_order oid s = (out, Inr True, s')"
  shows "\<exists>ivs'. s' = s\<lparr>inventory := ivs',
            orders := dict_set oid (Order_update_status ''Fulfilled'' ord) (orders s)\<rparr>"
  using assms by (auto simp: fulfill_order_def split: prod.splits if_splits)

lemma demo_pending_inv: "registry_inv (demo_with_order [(''PROD-001'', 5)] ''Pending'')"
  by code_simp

lemma demo_pending_fulfilled:
  "fst (snd (fulfill_order ''ORD-1'' (demo_with_order [(''PROD-001'', 5)] ''Pending''))) = Inr True"
  by code_simp

lemma del_1: "''DEL-'' @ str_nat (0 + 1) = ''DEL-1''"
  by code_simp

text \<open>
  C3. For a registered order id: while the order's status is not \<open>Fulfilled\<close>,
  \<open>schedule_delivery\<close> prints the "not yet fulfilled" line, returns \<open>None\<close> and leaves
  the registry as it is. Right after a \<open>fulfill_order\<close> of that id that returned
  \<open>True\<close>, \<open>schedule_delivery\<close> returns a new \<open>Delivery\<close> that refers to the order
  (now \<open>Fulfilled\<close>) and registers it under its id \<open>DEL-\<close>n; in a registry that
  satisfies the invariant that id is a new key, so the delivery is appended.
\<close>
theorem schedule_delivery_needs_fulfilled_order:
  assumes "dict_get (orders s) oid = Some ord"
  shows "(Order.status ord \<noteq> ''Fulfilled'' \<longrightarrow>
            schedule_delivery oid ddate s
              = ([''Order '' @ quoted oid
                    @ '' is not yet fulfilled and cannot be scheduled for delivery.''], None, s))
         \<and> (fulfill_order oid s = (out, Inr True, s') \<longrightarrow>
              (\<exists>line d.
                 schedule_delivery oid ddate s'
                   = ([line], Some d, s'\<lparr>deliveries := dict_set (delivery_id d) d (deliveries s')\<rparr>)
                 \<and> d = Delivery_init (''DEL-'' @ str_nat (length (deliveries s') + 1)) oid ddate
                 \<and> Delivery.order d = oid
                 \<and> dict_get (orders s') oid = Some (ord\<lparr>Order.status := ''Fulfilled''\<rparr>)
                 \<and> (registry_inv s \<longrightarrow>
                       dict_get (deliveries s') (delivery_id d) = None
                       \<and> dict_set (delivery_id d) d (deliveries s')
                           = deliveries s' @ [(delivery_id d, d)])))"
proof (intro conjI impI)
  assume "Order.status ord \<noteq> ''Fulfilled''"
  with assms show "schedule_delivery oid ddate s
              = ([''Order '' @ quoted oid
                    @ '' is not yet fulfilled and cannot be scheduled for delivery.''], None, s)"
    by (simp add: schedule_delivery_def)
next
  assume f: "fulfill_order oid s = (out, Inr True, s')"
  from fulfill_order_success[OF assms f] obtain ivs' where
    s': "s' = s\<lparr>inventory := ivs',
            orders := dict_set oid (Order_update_status ''Fulfilled'' ord) (orders s)\<rparr>" ..
  let ?did = "''DEL-'' @ str_nat (length (deliveries s') + 1)"
  let ?d = "Delivery_init ?did oid ddate"
  have o': "dict_get (orders s') oid = Some (ord\<lparr>Order.status := ''Fulfilled''\<rparr>)"
    by (simp add: s' dict_get_set Order_update_status_def)
  have id: "delivery_id ?d = ?did" and ref: "Delivery.order ?d = oid"
    by (simp_all add: Delivery_init_def)
  have sched: "schedule_delivery oid ddate s'
      = ([''Delivery '' @ quoted ?did @ '' scheduled for order '' @ quoted oid @ ''.''],
         Some ?d, s'\<lparr>deliveries := dict_set (delivery_id ?d) ?d (deliveries s')\<rparr>)"
    unfolding id using o' by (simp add: schedule_delivery_def Let_def)
  have fresh: "registry_inv s \<longrightarrow>
                 dict_get (deliveries s') (delivery_id ?d) = None
                 \<and> dict_set (delivery_id ?d) ?d (deliveries s')
                     = deliveries s' @ [(delivery_id ?d, ?d)]"
  proof
    assume "registry_inv s"
    then have "dict_keys (deliveries s')
        = map (\<lambda>n. ''DEL-'' @ str_nat n) [1..<Suc (length (deliveries s'))]"
      by (simp add: registry_inv_def ids_sequential_def s')
    then have "?did \<notin> set (dict_keys (deliveries s'))"
      using sequential_fresh[of "''DEL-''" "length (deliveries s')"] by simp
    then have "dict_get (deliveries s') (delivery_id ?d) = None"
      unfolding id by (simp add: dict_get_None_iff dict_keys_def)
    then show "dict_get (deliveries s') (delivery_id ?d) = None
                 \<and> dict_set (delivery_id ?d) ?d (deliveries s')
                     = deliveries s' @ [(delivery_id ?d, ?d)]"
      by (simp add: dict_set_new)
  qed
  from sched ref o' fresh
  show "\<exists>line d.
                 schedule_delivery oid ddate s'
                   = ([line], Some d, s'\<lparr>deliveries := dict_set (delivery_id d) d (deliveries s')\<rparr>)
                 \<and> d = Delivery_init (''DEL-'' @ str_nat (length (deliveries s') + 1)) oid ddate
                 \<and> Delivery.order d = oid
                 \<and> dict_get (orders s') oid = Some (ord\<lparr>Order.status := ''Fulfilled''\<rparr>)
                 \<and> (registry_inv s \<longrightarrow>
                       dict_get (deliveries s') (delivery_id d) = None
                       \<and> dict_set (delivery_id d) d (deliveries s')
                           = deliveries s' @ [(delivery_id d, d)])"
    by blast
qed


theorem schedule_delivery_needs_fulfilled_order_witness:
  "dict_get (orders (demo_with_order [(''PROD-001'', 5)] ''Pending'')) ''ORD-1''
     = Some (demo_order [(''PROD-001'', 5)] ''Pending'')
   \<and> Order.status (demo_order [(''PROD-001'', 5)] ''Pending'') \<noteq> ''Fulfilled''
   \<and> schedule_delivery ''ORD-1'' (Some (2025, 4, 18))
        (demo_with_order [(''PROD-001'', 5)] ''Pending'')
       = ([''Order 'ORD-1' is not yet fulfilled and cannot be scheduled for delivery.''], None,
          demo_with_order [(''PROD-001'', 5)] ''Pending'')
   \<and> registry_inv (demo_with_order [(''PROD-001'', 5)] ''Pending'')
   \<and> fst (snd (fulfill_order ''ORD-1'' (demo_with_order [(''PROD-001'', 5)] ''Pending'')))
       = Inr True
   \<and> fst (snd (schedule_delivery ''ORD-1'' (Some (2025, 4, 18))
        (snd (snd (fulfill_order ''ORD-1'' (demo_with_order [(''PROD-001'', 5)] ''Pending''))))))
       = Some (Delivery_init ''DEL-1'' ''ORD-1'' (Some (2025, 4, 18)))"
proof -
  let ?s = "demo_with_order [(''PROD-001'', 5)] ''Pending''"
  let ?ord = "demo_order [(''PROD-001'', 5)] ''Pending''"
  have g: "dict_get (orders ?s) ''ORD-1'' = Some ?ord"
    by (simp add: demo_with_order_fields)
  have p: "Order.status ?ord \<noteq> ''Fulfilled''"
    by (simp add: demo_order_fields)
  have f: "fulfill_order ''ORD-1'' ?s
      = (fst (fulfill_order ''ORD-1'' ?s), Inr True, snd (snd (fulfill_order ''ORD-1'' ?s)))"
    using demo_pending_fulfilled by (metis prod.collapse)
  have d: "deliveries (snd (snd (fulfill_order ''ORD-1'' ?s))) = []"
    using fulfill_order_fields[of "''ORD-1''" ?s] by (simp add: demo_with_order_fields)
  have q: "quoted ''ORD-1'' = [CHR 0x27] @ ''ORD-1'' @ [CHR 0x27]"
    by (simp add: quoted_def)
  from schedule_delivery_needs_fulfilled_order [OF g, of "Some (2025, 4, 18)"
      "fst (fulfill_order ''ORD-1'' ?s)" "snd (snd (fulfill_order ''ORD-1'' ?s))"] p f
  have a: "schedule_delivery ''ORD-1'' (Some (2025, 4, 18)) ?s
       = ([''Order 'ORD-1' is not yet fulfilled and cannot be scheduled for delivery.''], None, ?s)"
    and b: "fst (snd (schedule_delivery ''ORD-1'' (Some (2025, 4, 18))
        (snd (snd (fulfill_order ''ORD-1'' ?s)))))
       = Some (Delivery_init ''DEL-1'' ''ORD-1'' (Some (2025, 4, 18)))"
    unfolding d using del_1 by (auto simp: q)
  from g p a demo_pending_inv demo_pending_fulfilled b show ?thesis by blast
qed

section \<open>Shipping from one item leaves the other products alone\<close>

lemma ship_Cons_0:
  "ship 0 q (e # rest) = (fst e, (snd e)\<lparr>quantity := quantity (snd e) - q\<rparr>) # rest"
  by (simp add: ship_def)

lemma ship_Cons_Suc: "ship (Suc j) q (e # rest) = e # ship j q rest"
  by (simp add: ship_def)

lemma find_inventory_ship_other:
  "i < length ivs \<Longrightarrow> fst (fst (ivs ! i)) \<noteq> pid \<Longrightarrow>
   find_inventory pid qty (ship i q ivs) = find_inventory pid qty ivs"
proof (induction ivs arbitrary: i)
  case Nil
  then show ?case by simp
next
  case (Cons e rest)
  obtain p l it where e: "e = ((p, l), it)" by (metis prod.collapse)
  show ?case
  proof (cases i)
    case 0
    with Cons.prems e show ?thesis by (simp add: ship_Cons_0)
  next
    case (Suc j)
    with Cons.prems have "j < length rest" "fst (fst (rest ! j)) \<noteq> pid" by simp_all
    from Cons.IH[OF this] Suc e show ?thesis by (simp add: ship_Cons_Suc)
  qed
qed

text \<open>One step of the loop of \<open>fulfill_order\<close>, by the outcome of the scan.\<close>

lemma fulfill_items_insufficient:
  "find_inventory pid qty ivs = None \<Longrightarrow> dict_get prods pid = Some p \<Longrightarrow>
   fulfill_items prods oid ((pid, qty) # rest) ivs
     = ([''Insufficient stock of '' @ quoted (Product.name p) @ '' to fulfill order ''
           @ quoted oid @ ''.''], Inr False, ivs)"
  by simp

lemma fulfill_items_shipped:
  "find_inventory pid qty ivs = Some i \<Longrightarrow> dict_get prods pid = Some p \<Longrightarrow>
   fulfill_items prods oid ((pid, qty) # rest) ivs
     = ((''Shipped '' @ str_int qty @ '' units of '' @ quoted (Product.name p)
           @ '' from '' @ quoted (Location.name (location (snd (ship i qty ivs ! i))))
           @ '' for order '' @ quoted oid @ ''.'')
          # fst (fulfill_items prods oid rest (ship i qty ivs)),
        fst (snd (fulfill_items prods oid rest (ship i qty ivs))),
        snd (snd (fulfill_items prods oid rest (ship i qty ivs))))"
  by (simp add: Let_def split: prod.splits)

lemma registry_inv_order:
  assumes "registry_inv s" and "dict_get (orders s) oid = Some ord"
  shows "distinct (dict_keys (items ord))"
    and "\<forall>pid \<in> set (dict_keys (items ord)). dict_contains (products s) pid"
proof -
  from dict_get_Some_mem[OF assms(2)] have "(oid, ord) \<in> set (orders s)" .
  with assms(1) show "distinct (dict_keys (items ord))"
    and "\<forall>pid \<in> set (dict_keys (items ord)). dict_contains (products s) pid"
    by (auto simp: registry_inv_def items_distinct_def orders_registered_def)
qed

section \<open>A failed fulfilment keeps the decrements it made\<close>

text \<open>
  C1. Take a registry that satisfies the invariant and a \<open>Pending\<close> order with two line
  items, where the scan finds an inventory item (position \<open>i\<close>) with enough stock for
  the first line and none for the second. Then \<open>fulfill_order\<close> returns \<open>False\<close>, the
  registry after the call differs from the one before only in that item \<open>i\<close> has been
  decremented by the first line's quantity (nothing is rolled back), and the order's status
  is still \<open>Pending\<close>.
\<close>
theorem failed_fulfillment_keeps_earlier_decrement:
  assumes "registry_inv s"
    and "dict_get (orders s) oid = Some ord"
    and "items ord = [(p1, q1), (p2, q2)]"
    and "Order.status ord = ''Pending''"
    and "find_inventory p1 q1 (inventory s) = Some i"
    and "find_inventory p2 q2 (inventory s) = None"
  shows "fst (snd (fulfill_order oid s)) = Inr False
         \<and> snd (snd (fulfill_order oid s)) = s\<lparr>inventory := ship i q1 (inventory s)\<rparr>
         \<and> map_option Order.status (dict_get (orders (snd (snd (fulfill_order oid s)))) oid)
             = Some ''Pending''
         \<and> quantity (snd (inventory (snd (snd (fulfill_order oid s))) ! i))
             = quantity (snd (inventory s ! i)) - q1"
proof -
  from registry_inv_order[OF assms(1,2)] assms(3)
  have ne: "p1 \<noteq> p2" and r1: "dict_contains (products s) p1" and r2: "dict_contains (products s) p2"
    by (simp_all add: dict_keys_def)
  from r1 obtain pr1 where pr1: "dict_get (products s) p1 = Some pr1"
    by (auto simp: dict_contains_def)
  from r2 obtain pr2 where pr2: "dict_get (products s) p2 = Some pr2"
    by (auto simp: dict_contains_def)
  from find_inventory_Some[OF assms(5)]
  have i: "i < length (inventory s)" and pi: "fst (fst (inventory s ! i)) = p1" by simp_all
  from ne pi have "fst (fst (inventory s ! i)) \<noteq> p2" by simp
  from find_inventory_ship_other[OF i this] assms(6)
  have none: "find_inventory p2 q2 (ship i q1 (inventory s)) = None" by simp
  have loop: "fst (snd (fulfill_items (products s) oid (items ord) (inventory s))) = Inr False"
    "snd (snd (fulfill_items (products s) oid (items ord) (inventory s))) = ship i q1 (inventory s)"
    unfolding assms(3) fulfill_items_shipped[OF assms(5) pr1] fulfill_items_insufficient[OF none pr2]
    by simp_all
  obtain out r ivs' where f: "fulfill_items (products s) oid (items ord) (inventory s) = (out, r, ivs')"
    by (cases "fulfill_items (products s) oid (items ord) (inventory s)")
  with loop have r: "r = Inr False" and ivs': "ivs' = ship i q1 (inventory s)" by simp_all
  have res: "fst (snd (fulfill_order oid s)) = Inr False"
    and st: "snd (snd (fulfill_order oid s)) = s\<lparr>inventory := ship i q1 (inventory s)\<rparr>"
    using assms(2) f r ivs' by (simp_all add: fulfill_order_def)
  have pend: "map_option Order.status (dict_get (orders (snd (snd (fulfill_order oid s)))) oid)
             = Some ''Pending''"
    using assms(2,4) by (simp add: st)
  have dec: "quantity (snd (inventory (snd (snd (fulfill_order oid s))) ! i))
             = quantity (snd (inventory s ! i)) - q1"
    using i by (simp add: st nth_ship)
  from res st pend dec show ?thesis by simp
qed


theorem failed_fulfillment_keeps_earlier_decrement_witness:
  "registry_inv (demo_with_order [(''PROD-001'', 5), (''PROD-003'', 60)] ''Pending'')
   \<and> dict_get (orders (demo_with_order [(''PROD-001'', 5), (''PROD-003'', 60)] ''Pending''))
         ''ORD-1''
       = Some (demo_order [(''PROD-001'', 5), (''PROD-003'', 60)] ''Pending'')
   \<and> find_inventory ''PROD-001'' 5
         (inventory (demo_with_order [(''PROD-001'', 5), (''PROD-003'', 60)] ''Pending''))
       = Some 0
   \<and> find_inventory ''PROD-003'' 60
         (inventory (demo_with_order [(''PROD-001'', 5), (''PROD-003'', 60)] ''Pending''))
       = None
   \<and> fst (snd (fulfill_order ''ORD-1''
               (demo_with_order [(''PROD-001'', 5), (''PROD-003'', 60)] ''Pending'')))
       = Inr False
   \<and> map_option Order.status
         (dict_get (orders (snd (snd (fulfill_order ''ORD-1''
              (demo_with_order [(''PROD-001'', 5), (''PROD-003'', 60)] ''Pending'')))))
            ''ORD-1'')
       = Some ''Pending''
   \<and> quantity (snd (inventory (snd (snd (fulfill_order ''ORD-1''
              (demo_with_order [(''PROD-001'', 5), (''PROD-003'', 60)] ''Pending'')))) ! 0))
       = 95"
proof -
  let ?s = "demo_with_order [(''PROD-001'', 5), (''PROD-003'', 60)] ''Pending''"
  let ?ord = "demo_order [(''PROD-001'', 5), (''PROD-003'', 60)] ''Pending''"
  have inv: "registry_inv ?s" by code_simp
  have g: "dict_get (orders ?s) ''ORD-1'' = Some ?ord"
    by (simp add: demo_with_order_fields)
  have its: "items ?ord = [(''PROD-001'', 5), (''PROD-003'', 60)]"
    and pend: "Order.status ?ord = ''Pending''"
    by (simp_all add: demo_order_fields)
  have f1: "find_inventory ''PROD-001'' 5 (inventory ?s) = Some 0"
    by (simp add: demo_with_order_fields demo_inventory_def)
  have f2: "find_inventory ''PROD-003'' 60 (inventory ?s) = None"
    by (simp add: demo_with_order_fields demo_inventory_def)
  have q0: "quantity (snd (inventory ?s ! 0)) = 100"
    by (simp add: demo_with_order_fields demo_inventory_def)
  note t = failed_fulfillment_keeps_earlier_decrement [OF inv g its pend f1 f2]
  from t have a: "fst (snd (fulfill_order ''ORD-1'' ?s)) = Inr False" by blast
  from t have b: "map_option Order.status
      (dict_get (orders (snd (snd (fulfill_order ''ORD-1'' ?s)))) ''ORD-1'') = Some ''Pending''"
    by blast
  from t have "quantity (snd (inventory (snd (snd (fulfill_order ''ORD-1'' ?s))) ! 0))
      = quantity (snd (inventory ?s ! 0)) - 5" by blast
  then have c: "quantity (snd (inventory (snd (snd (fulfill_order ''ORD-1'' ?s))) ! 0)) = 95"
    unfolding q0 by simp
  from inv g f1 f2 a b c show ?thesis by (intro conjI)
qed

section \<open>The loop of fulfill_order, line by line\<close>

lemma fulfill_items_cases:
  obtains (insufficient) "find_inventory pid qty ivs = None"
      "snd (snd (fulfill_items prods oid ((pid, qty) # rest) ivs)) = ivs"
      "fst (snd (fulfill_items prods oid ((pid, qty) # rest) ivs)) \<noteq> Inr True"
  | (unregistered) i where "find_inventory pid qty ivs = Some i" "dict_get prods pid = None"
      "fulfill_items prods oid ((pid, qty) # rest) ivs = ([], Inl KeyError, ship i qty ivs)"
  | (shipped) i p where "find_inventory pid qty ivs = Some i" "dict_get prods pid = Some p"
      "fst (snd (fulfill_items prods oid ((pid, qty) # rest) ivs))
         = fst (snd (fulfill_items prods oid rest (ship i qty ivs)))"
      "snd (snd (fulfill_items prods oid ((pid, qty) # rest) ivs))
         = snd (snd (fulfill_items prods oid rest (ship i qty ivs)))"
proof (cases "find_inventory pid qty ivs")
  case None
  then show ?thesis
    by (intro insufficient) (auto split: option.splits)
next
  case (Some i)
  show ?thesis
  proof (cases "dict_get prods pid")
    case None
    with Some show ?thesis by (intro unregistered[of i]) (simp_all add: Let_def)
  next
    case (Some p)
    note sh = fulfill_items_shipped[OF \<open>find_inventory pid qty ivs = Some i\<close> Some, of oid rest]
    show ?thesis
    proof (rule shipped[of i p])
      show "find_inventory pid qty ivs = Some i" by fact
      show "dict_get prods pid = Some p" by fact
      show "fst (snd (fulfill_items prods oid ((pid, qty) # rest) ivs))
         = fst (snd (fulfill_items prods oid rest (ship i qty ivs)))"
        unfolding sh by simp
      show "snd (snd (fulfill_items prods oid ((pid, qty) # rest) ivs))
         = snd (snd (fulfill_items prods oid rest (ship i qty ivs)))"
        unfolding sh by simp
    qed
  qed
qed

lemma fulfill_items_keys:
  "map fst (snd (snd (fulfill_items prods oid its ivs))) = map fst ivs"
proof (induction its arbitrary: ivs)
  case Nil
  then show ?case by simp
next
  case (Cons line rest)
  obtain pid qty where line: "line = (pid, qty)" by (cases line)
  show ?case
  proof (cases rule: fulfill_items_cases[where pid=pid and qty=qty and ivs=ivs and prods=prods and oid=oid and rest=rest])
    case insufficient
    then show ?thesis unfolding line by simp
  next
    case (unregistered i)
    then show ?thesis unfolding line by (simp add: keys_ship)
  next
    case (shipped i p)
    with Cons.IH[of "ship i qty ivs"] show ?thesis unfolding line by (simp add: keys_ship)
  qed
qed

lemma fulfill_items_length:
  "length (snd (snd (fulfill_items prods oid its ivs))) = length ivs"
  using fulfill_items_keys[of prods oid its ivs] by (metis length_map)

lemma fulfill_items_other:
  "pid \<notin> set (dict_keys its) \<Longrightarrow> j < length ivs \<Longrightarrow> fst (fst (ivs ! j)) = pid \<Longrightarrow>
   snd (snd (fulfill_items prods oid its ivs)) ! j = ivs ! j"
proof (induction its arbitrary: ivs)
  case Nil
  then show ?case by simp
next
  case (Cons line rest)
  obtain p0 q0 where line: "line = (p0, q0)" by (cases line)
  from Cons.prems(1) line have ne: "p0 \<noteq> pid" and rest: "pid \<notin> set (dict_keys rest)"
    by (auto simp: dict_keys_def)
  show ?case
  proof (cases rule: fulfill_items_cases[where pid=p0 and qty=q0 and ivs=ivs and prods=prods and oid=oid and rest=rest])
    case insufficient
    then show ?thesis unfolding line by simp
  next
    case (unregistered i)
    from find_inventory_Some[OF unregistered(1)] ne Cons.prems(3) have "j \<noteq> i" by auto
    with unregistered Cons.prems(2) show ?thesis unfolding line by (simp add: nth_ship)
  next
    case (shipped i p)
    from find_inventory_Some[OF shipped(1)] ne Cons.prems(3) have "j \<noteq> i" by auto
    with Cons.prems(2) have same: "ship i q0 ivs ! j = ivs ! j" by (simp add: nth_ship)
    from Cons.prems(2) have len: "j < length (ship i q0 ivs)" by (simp add: length_ship)
    from same Cons.prems(3) have "fst (fst (ship i q0 ivs ! j)) = pid" by simp
    from Cons.IH[OF rest len this] same shipped show ?thesis unfolding line by simp
  qed
qed

lemma fulfill_items_succeeds:
  "distinct (dict_keys its) \<Longrightarrow>
   \<forall>pid \<in> set (dict_keys its). dict_contains prods pid \<Longrightarrow>
   \<forall>(pid, qty) \<in> set its. find_inventory pid qty ivs \<noteq> None \<Longrightarrow>
   fst (snd (fulfill_items prods oid its ivs)) = Inr True"
proof (induction its arbitrary: ivs)
  case Nil
  then show ?case by simp
next
  case (Cons line rest)
  obtain p0 q0 where line: "line = (p0, q0)" by (cases line)
  from Cons.prems(1) line have fresh: "p0 \<notin> set (dict_keys rest)"
    and dist: "distinct (dict_keys rest)" by (simp_all add: dict_keys_def)
  from Cons.prems(2) line have reg0: "dict_contains prods p0"
    and reg: "\<forall>pid \<in> set (dict_keys rest). dict_contains prods pid"
    by (simp_all add: dict_keys_def)
  from Cons.prems(3) line have found0: "find_inventory p0 q0 ivs \<noteq> None"
    and found: "\<forall>(pid, qty) \<in> set rest. find_inventory pid qty ivs \<noteq> None" by simp_all
  show ?case
  proof (cases rule: fulfill_items_cases[where pid=p0 and qty=q0 and ivs=ivs and prods=prods and oid=oid and rest=rest])
    case insufficient
    with found0 show ?thesis unfolding line by simp
  next
    case (unregistered i)
    with reg0 show ?thesis unfolding line by (simp add: dict_contains_def)
  next
    case (shipped i p)
    from find_inventory_Some[OF shipped(1)]
    have i: "i < length ivs" and pi: "fst (fst (ivs ! i)) = p0" by simp_all
    have step: "find_inventory pid qty (ship i q0 ivs) \<noteq> None" if m: "(pid, qty) \<in> set rest"
      for pid qty
    proof -
      from m have "fst (pid, qty) \<in> fst ` set rest" by (rule imageI)
      then have "pid \<in> set (dict_keys rest)" by (simp add: dict_keys_def)
      with fresh pi have "fst (fst (ivs ! i)) \<noteq> pid" by auto
      from find_inventory_ship_other[OF i this]
      have "find_inventory pid qty (ship i q0 ivs) = find_inventory pid qty ivs" .
      with found m show ?thesis unfolding line by auto
    qed
    then have "\<forall>(pid, qty) \<in> set rest. find_inventory pid qty (ship i q0 ivs) \<noteq> None"
      by auto
    from Cons.IH[OF dist reg this] shipped show ?thesis unfolding line by simp
  qed
qed

lemma fulfill_items_first_fit:
  "distinct (dict_keys its) \<Longrightarrow> (pid, qty) \<in> set its \<Longrightarrow>
   find_inventory pid qty ivs = Some i \<Longrightarrow>
   fst (snd (fulfill_items prods oid its ivs)) = Inr True \<Longrightarrow>
   snd (snd (fulfill_items prods oid its ivs)) ! i
     = (fst (ivs ! i), (snd (ivs ! i))\<lparr>quantity := quantity (snd (ivs ! i)) - qty\<rparr>)
   \<and> (\<forall>j < length ivs. j \<noteq> i \<longrightarrow> fst (fst (ivs ! j)) = pid \<longrightarrow>
         snd (snd (fulfill_items prods oid its ivs)) ! j = ivs ! j)"
proof (induction its arbitrary: ivs)
  case Nil
  then show ?case by simp
next
  case (Cons line rest)
  obtain p0 q0 where line: "line = (p0, q0)" by (cases line)
  from Cons.prems(1) line have fresh: "p0 \<notin> set (dict_keys rest)"
    and dist: "distinct (dict_keys rest)" by (simp_all add: dict_keys_def)
  from find_inventory_Some[OF Cons.prems(3)]
  have i: "i < length ivs" and pi: "fst (fst (ivs ! i)) = pid" by simp_all
  from Cons.prems(4) line
  have ok: "fst (snd (fulfill_items prods oid ((p0, q0) # rest) ivs)) = Inr True" by simp
  show ?case
  proof (cases rule: fulfill_items_cases[where pid=p0 and qty=q0 and ivs=ivs and prods=prods and oid=oid and rest=rest])
    case insufficient
    with ok show ?thesis unfolding line by simp
  next
    case (unregistered i0)
    with ok show ?thesis unfolding line by simp
  next
    case (shipped i0 p)
    from find_inventory_Some[OF shipped(1)]
    have i0: "i0 < length ivs" and pi0: "fst (fst (ivs ! i0)) = p0" by simp_all
    let ?ivs1 = "ship i0 q0 ivs"
    let ?res = "snd (snd (fulfill_items prods oid rest ?ivs1))"
    have res: "snd (snd (fulfill_items prods oid ((p0, q0) # rest) ivs)) = ?res"
      using shipped by simp
    show ?thesis
    proof (cases "p0 = pid")
      case True
      with fresh have notin: "pid \<notin> set (dict_keys rest)" by simp
      have "q0 = qty"
      proof (rule ccontr)
        assume "q0 \<noteq> qty"
        with Cons.prems(2) line have "(pid, qty) \<in> set rest" by auto
        then have "fst (pid, qty) \<in> fst ` set rest" by (rule imageI)
        with notin show False by (simp add: dict_keys_def)
      qed
      from shipped(1) Cons.prems(3) True this have "i0 = i" by simp
      have keep: "\<And>j. j < length ivs \<Longrightarrow> fst (fst (ivs ! j)) = pid \<Longrightarrow> ?res ! j = ?ivs1 ! j"
      proof -
        fix j assume j: "j < length ivs" and pj: "fst (fst (ivs ! j)) = pid"
        from j have len: "j < length ?ivs1" by (simp add: length_ship)
        from j pj pi \<open>i0 = i\<close> have "fst (fst (?ivs1 ! j)) = pid"
          by (simp add: nth_ship)
        from fulfill_items_other[OF notin len this] show "?res ! j = ?ivs1 ! j" .
      qed
      from keep[OF i pi] i \<open>i0 = i\<close> \<open>q0 = qty\<close>
      have a: "?res ! i = (fst (ivs ! i), (snd (ivs ! i))\<lparr>quantity := quantity (snd (ivs ! i)) - qty\<rparr>)"
        by (simp add: nth_ship)
      have b: "\<forall>j < length ivs. j \<noteq> i \<longrightarrow> fst (fst (ivs ! j)) = pid \<longrightarrow> ?res ! j = ivs ! j"
        using keep \<open>i0 = i\<close> by (simp add: nth_ship)
      from a b show ?thesis unfolding line res by simp
    next
      case False
      with Cons.prems(2) line have mem: "(pid, qty) \<in> set rest" by auto
      from False pi0 have "fst (fst (ivs ! i0)) \<noteq> pid" by simp
      from find_inventory_ship_other[OF i0 this] Cons.prems(3)
      have f1: "find_inventory pid qty ?ivs1 = Some i" by simp
      from ok shipped have ok1: "fst (snd (fulfill_items prods oid rest ?ivs1)) = Inr True" by simp
      from False pi pi0 have ii0: "i \<noteq> i0" by auto
      note ih = Cons.IH[OF dist mem f1 ok1]
      from ih i ii0
      have a: "?res ! i = (fst (ivs ! i), (snd (ivs ! i))\<lparr>quantity := quantity (snd (ivs ! i)) - qty\<rparr>)"
        by (simp add: nth_ship)
      have b: "\<forall>j < length ivs. j \<noteq> i \<longrightarrow> fst (fst (ivs ! j)) = pid \<longrightarrow> ?res ! j = ivs ! j"
      proof (intro allI impI)
        fix j assume j: "j < length ivs" and ji: "j \<noteq> i" and pj: "fst (fst (ivs ! j)) = pid"
        from pj pi0 False have "j \<noteq> i0" by auto
        with j have same: "?ivs1 ! j = ivs ! j" by (simp add: nth_ship)
        from ih j ji pj same show "?res ! j = ivs ! j" by (simp add: length_ship)
      qed
      from a b show ?thesis unfolding line res by simp
    qed
  qed
qed

section \<open>First fit\<close>

lemma fulfill_order_found:
  assumes "dict_get (orders s) oid = Some ord"
  shows "fst (snd (fulfill_order oid s))
           = fst (snd (fulfill_items (products s) oid (items ord) (inventory s)))"
    and "inventory (snd (snd (fulfill_order oid s)))
           = snd (snd (fulfill_items (products s) oid (items ord) (inventory s)))"
  using assms by (auto simp: fulfill_order_def split: prod.splits)

lemma find_inventory_first_sufficient:
  assumes "i < length ivs"
    and "fst (fst (ivs ! i)) = pid" and "qty \<le> quantity (snd (ivs ! i))"
    and "\<forall>k<i. \<not> (fst (fst (ivs ! k)) = pid \<and> qty \<le> quantity (snd (ivs ! k)))"
  shows "find_inventory pid qty ivs = Some i"
proof -
  from assms(1) have "ivs ! i \<in> set ivs" by simp
  with assms(2,3) have "find_inventory pid qty ivs \<noteq> None"
    unfolding find_inventory_None by blast
  then obtain i' where f: "find_inventory pid qty ivs = Some i'" by auto
  from find_inventory_Some[OF f]
  have m: "fst (fst (ivs ! i')) = pid \<and> qty \<le> quantity (snd (ivs ! i'))" by simp
  have "\<not> i' < i" using assms(4) m by blast
  moreover have "\<not> i < i'" using find_inventory_first[OF f, of i] assms(2,3) by blast
  ultimately have "i' = i" by simp
  with f show ?thesis by simp
qed

lemma demo_restocked_inventory:
  "inventory demo_restocked =
     [((''PROD-001'', ''LOC-002''), \<lparr>product = apple, location = warehouse_x, quantity = 100\<rparr>),
      ((''PROD-002'', ''LOC-002''), \<lparr>product = banana, location = warehouse_x, quantity = 150\<rparr>),
      ((''PROD-003'', ''LOC-002''), \<lparr>product = milk, location = warehouse_x, quantity = 50\<rparr>),
      ((''PROD-001'', ''LOC-003''), \<lparr>product = apple, location = retailer_y, quantity = 100\<rparr>),
      ((''PROD-003'', ''LOC-003''), \<lparr>product = milk, location = retailer_y, quantity = 10\<rparr>)]"
  by code_simp

lemma demo_restocked_order:
  "dict_get (orders demo_restocked) ''ORD-1'' = Some (demo_order [(''PROD-001'', 100)] ''Pending'')"
  by code_simp

lemma demo_restocked_inv: "registry_inv demo_restocked"
  by code_simp

lemma demo_restocked_fulfilled: "fst (snd (fulfill_order ''ORD-1'' demo_restocked)) = Inr True"
  by code_simp

lemma demo_restocked_reachable:
  "run (demo_setup @ [PlaceOrder ''Alice'' [(''PROD-001'', 100)] (2025, 4, 17),
                      AddInventory ''PROD-001'' ''LOC-003'' 80]) FoodSupplyChain_init
     = demo_restocked"
  by code_simp

text \<open>
  C2. Take a registry that satisfies the invariant and an order that \<open>fulfill_order\<close>
  fulfils (it returns \<open>True\<close>), with a line item for \<open>qty\<close> units of a product. Let
  items \<open>i\<close> and \<open>j\<close> be two inventory items of that product, \<open>i\<close> inserted before
  \<open>j\<close>, each holding at least \<open>qty\<close>, with no item of the product before \<open>i\<close> that
  holds at least \<open>qty\<close>. After the call, item \<open>i\<close> holds \<open>qty\<close> less than before
  and item \<open>j\<close> is as it was.
\<close>
theorem first_sufficient_item_is_shipped:
  assumes "registry_inv s"
    and "dict_get (orders s) oid = Some ord"
    and "(pid, qty) \<in> set (items ord)"
    and "fst (snd (fulfill_order oid s)) = Inr True"
    and "i < j" and "j < length (inventory s)"
    and "fst (fst (inventory s ! i)) = pid" and "qty \<le> quantity (snd (inventory s ! i))"
    and "fst (fst (inventory s ! j)) = pid" and "qty \<le> quantity (snd (inventory s ! j))"
    and "\<forall>k<i. \<not> (fst (fst (inventory s ! k)) = pid \<and> qty \<le> quantity (snd (inventory s ! k)))"
  shows "quantity (snd (inventory (snd (snd (fulfill_order oid s))) ! i))
           = quantity (snd (inventory s ! i)) - qty
         \<and> inventory (snd (snd (fulfill_order oid s))) ! j = inventory s ! j"
proof -
  from assms(5,6) have i: "i < length (inventory s)" by simp
  from find_inventory_first_sufficient[OF i assms(7,8,11)]
  have first: "find_inventory pid qty (inventory s) = Some i" .
  from registry_inv_order(1)[OF assms(1,2)] have dist: "distinct (dict_keys (items ord))" .
  from assms(4) have ok: "fst (snd (fulfill_items (products s) oid (items ord) (inventory s)))
      = Inr True"
    by (simp add: fulfill_order_found(1)[OF assms(2)])
  from fulfill_items_first_fit[OF dist assms(3) first ok] assms(5,6,9)
  show ?thesis
    by (simp add: fulfill_order_found(2)[OF assms(2)])
qed

theorem first_sufficient_item_is_shipped_witness:
  "registry_inv demo_restocked
   \<and> dict_get (orders demo_restocked) ''ORD-1''
       = Some (demo_order [(''PROD-001'', 100)] ''Pending'')
   \<and> (''PROD-001'', 100) \<in> set (items (demo_order [(''PROD-001'', 100)] ''Pending''))
   \<and> fst (snd (fulfill_order ''ORD-1'' demo_restocked)) = Inr True
   \<and> (0::nat) < 3 \<and> 3 < length (inventory demo_restocked)
   \<and> fst (fst (inventory demo_restocked ! 0)) = ''PROD-001''
   \<and> (100::int) \<le> quantity (snd (inventory demo_restocked ! 0))
   \<and> fst (fst (inventory demo_restocked ! 3)) = ''PROD-001''
   \<and> (100::int) \<le> quantity (snd (inventory demo_restocked ! 3))
   \<and> quantity (snd (inventory (snd (snd (fulfill_order ''ORD-1'' demo_restocked))) ! 0)) = 0
   \<and> inventory (snd (snd (fulfill_order ''ORD-1'' demo_restocked))) ! 3
       = ((''PROD-001'', ''LOC-003''), \<lparr>product = apple, location = retailer_y, quantity = 100\<rparr>)"
proof -
  let ?s = demo_restocked
  let ?ord = "demo_order [(''PROD-001'', 100)] ''Pending''"
  have m: "(''PROD-001'', 100) \<in> set (items ?ord)"
    by (simp add: demo_order_fields)
  have lt: "(0::nat) < 3" by simp
  have len: "3 < length (inventory ?s)"
    by (simp add: demo_restocked_inventory)
  have k0: "fst (fst (inventory ?s ! 0)) = ''PROD-001''"
    and q0: "100 \<le> quantity (snd (inventory ?s ! 0))"
    and k3: "fst (fst (inventory ?s ! 3)) = ''PROD-001''"
    and q3: "100 \<le> quantity (snd (inventory ?s ! 3))"
    by (simp_all add: demo_restocked_inventory)
  have none: "\<forall>k<0. \<not> (fst (fst (inventory ?s ! k)) = ''PROD-001''
      \<and> 100 \<le> quantity (snd (inventory ?s ! k)))" by simp
  have v0: "quantity (snd (inventory ?s ! 0)) = 100"
    by (simp add: demo_restocked_inventory)
  have at3: "inventory ?s ! 3
      = ((''PROD-001'', ''LOC-003''), \<lparr>product = apple, location = retailer_y, quantity = 100\<rparr>)"
    by (simp add: demo_restocked_inventory)
  note t = first_sufficient_item_is_shipped
      [OF demo_restocked_inv demo_restocked_order m demo_restocked_fulfilled lt len k0 q0 k3 q3 none]
  from t have a: "quantity (snd (inventory (snd (snd (fulfill_order ''ORD-1'' ?s))) ! 0)) = 0"
    unfolding v0 by simp
  from t have b: "inventory (snd (snd (fulfill_order ''ORD-1'' ?s))) ! 3
      = ((''PROD-001'', ''LOC-003''), \<lparr>product = apple, location = retailer_y, quantity = 100\<rparr>)"
    unfolding at3 by simp
  from demo_restocked_inv demo_restocked_order m demo_restocked_fulfilled lt len k0 q0 k3 q3 a b
  show ?thesis by (intro conjI)
qed

section \<open>Fulfilling an order twice\<close>

text \<open>
  C9. \<open>fulfill_order\<close> does not look at the order's status. In a registry that satisfies
  the invariant, for an order whose status is already \<open>Fulfilled\<close> and whose line items
  each still find an inventory item with enough stock, the call returns \<open>True\<close> again and
  the item found for each line is decremented by that line's quantity once more. So the
  method is not idempotent: there is a registry (the example one, with an order for 5 apples)
  where the first call succeeds and a second call leaves a different inventory than the
  first.
\<close>
theorem fulfill_order_ignores_status:
  "(registry_inv s \<and> dict_get (orders s) oid = Some ord \<and> Order.status ord = ''Fulfilled''
      \<and> (\<forall>(pid, qty) \<in> set (items ord). find_inventory pid qty (inventory s) \<noteq> None)
    \<longrightarrow> fst (snd (fulfill_order oid s)) = Inr True
        \<and> (\<forall>(pid, qty) \<in> set (items ord). \<forall>i.
              find_inventory pid qty (inventory s) = Some i \<longrightarrow>
              quantity (snd (inventory (snd (snd (fulfill_order oid s))) ! i))
                = quantity (snd (inventory s ! i)) - qty))
   \<and> (\<exists>s0 oid0.
         fst (snd (fulfill_order oid0 s0)) = Inr True
         \<and> inventory (snd (snd (fulfill_order oid0 (snd (snd (fulfill_order oid0 s0))))))
             \<noteq> inventory (snd (snd (fulfill_order oid0 s0))))"
proof (intro conjI impI)
  assume h: "registry_inv s \<and> dict_get (orders s) oid = Some ord
      \<and> Order.status ord = ''Fulfilled''
      \<and> (\<forall>(pid, qty) \<in> set (items ord). find_inventory pid qty (inventory s) \<noteq> None)"
  then have inv: "registry_inv s" and g: "dict_get (orders s) oid = Some ord"
    and sat: "\<forall>(pid, qty) \<in> set (items ord). find_inventory pid qty (inventory s) \<noteq> None"
    by simp_all
  note wf = registry_inv_order[OF inv g]
  from fulfill_items_succeeds[OF wf sat, of oid]
  have ok: "fst (snd (fulfill_items (products s) oid (items ord) (inventory s))) = Inr True" .
  then show "fst (snd (fulfill_order oid s)) = Inr True"
    by (simp add: fulfill_order_found(1)[OF g])
  show "\<forall>(pid, qty) \<in> set (items ord). \<forall>i.
              find_inventory pid qty (inventory s) = Some i \<longrightarrow>
              quantity (snd (inventory (snd (snd (fulfill_order oid s))) ! i))
                = quantity (snd (inventory s ! i)) - qty"
  proof (clarify)
    fix pid qty i
    assume m: "(pid, qty) \<in> set (items ord)"
      and f: "find_inventory pid qty (inventory s) = Some i"
    from fulfill_items_first_fit[OF wf(1) m f ok]
    show "quantity (snd (inventory (snd (snd (fulfill_order oid s))) ! i))
                = quantity (snd (inventory s ! i)) - qty"
      by (simp add: fulfill_order_found(2)[OF g])
  qed
next
  let ?s0 = "demo_with_order [(''PROD-001'', 5)] ''Pending''"
  let ?s1 = "snd (snd (fulfill_order ''ORD-1'' ?s0))"
  let ?s2 = "snd (snd (fulfill_order ''ORD-1'' ?s1))"
  have once: "quantity (snd (inventory ?s1 ! 0)) = 95" by code_simp
  have twice: "quantity (snd (inventory ?s2 ! 0)) = 90" by code_simp
  from once twice have "inventory ?s2 \<noteq> inventory ?s1" by auto
  with demo_pending_fulfilled
  show "\<exists>s0 oid0.
         fst (snd (fulfill_order oid0 s0)) = Inr True
         \<and> inventory (snd (snd (fulfill_order oid0 (snd (snd (fulfill_order oid0 s0))))))
             \<noteq> inventory (snd (snd (fulfill_order oid0 s0)))"
    by blast
qed


theorem fulfill_order_ignores_status_witness:
  "registry_inv (demo_with_order [(''PROD-001'', 5)] ''Fulfilled'')
   \<and> dict_get (orders (demo_with_order [(''PROD-001'', 5)] ''Fulfilled'')) ''ORD-1''
       = Some (demo_order [(''PROD-001'', 5)] ''Fulfilled'')
   \<and> Order.status (demo_order [(''PROD-001'', 5)] ''Fulfilled'') = ''Fulfilled''
   \<and> find_inventory ''PROD-001'' 5 (inventory (demo_with_order [(''PROD-001'', 5)] ''Fulfilled''))
       = Some 0
   \<and> fst (snd (fulfill_order ''ORD-1'' (demo_with_order [(''PROD-001'', 5)] ''Fulfilled'')))
       = Inr True
   \<and> quantity (snd (inventory (snd (snd (fulfill_order ''ORD-1''
           (demo_with_order [(''PROD-001'', 5)] ''Fulfilled'')))) ! 0)) = 95"
proof -
  let ?s = "demo_with_order [(''PROD-001'', 5)] ''Fulfilled''"
  let ?ord = "demo_order [(''PROD-001'', 5)] ''Fulfilled''"
  have inv: "registry_inv ?s" by code_simp
  have g: "dict_get (orders ?s) ''ORD-1'' = Some ?ord"
    by (simp add: demo_with_order_fields)
  have st: "Order.status ?ord = ''Fulfilled''"
    by (simp add: demo_order_fields)
  have f: "find_inventory ''PROD-001'' 5 (inventory ?s) = Some 0"
    by (simp add: demo_with_order_fields demo_inventory_def)
  have m: "(''PROD-001'', 5) \<in> set (items ?ord)"
    by (simp add: demo_order_fields)
  have sat: "\<forall>(pid, qty) \<in> set (items ?ord). find_inventory pid qty (inventory ?s) \<noteq> None"
    using f by (simp add: demo_order_fields)
  have q0: "quantity (snd (inventory ?s ! 0)) = 100"
    by (simp add: demo_with_order_fields demo_inventory_def)
  from fulfill_order_ignores_status [of ?s "''ORD-1''" ?ord] inv g st sat
  have ok: "fst (snd (fulfill_order ''ORD-1'' ?s)) = Inr True"
    and all: "\<forall>(pid, qty) \<in> set (items ?ord). \<forall>i.
              find_inventory pid qty (inventory ?s) = Some i \<longrightarrow>
              quantity (snd (inventory (snd (snd (fulfill_order ''ORD-1'' ?s))) ! i))
                = quantity (snd (inventory ?s ! i)) - qty"
    by blast+
  from all m f have "quantity (snd (inventory (snd (snd (fulfill_order ''ORD-1'' ?s))) ! 0))
      = quantity (snd (inventory ?s ! 0)) - 5" by blast
  then have dec: "quantity (snd (inventory (snd (snd (fulfill_order ''ORD-1'' ?s))) ! 0)) = 95"
    unfolding q0 by simp
  from inv g st f ok dec show ?thesis by (intro conjI)
qed

end
